theory Spec2Isabelle
  imports Main "HOL-Library.Word" "HOL-Library.Sublist"
begin

section \<open>Strings of the runtime\<close>

text \<open>
  The program is TypeScript: a string is a sequence of 16-bit code units, and equality,
  \<^verbatim>\<open>includes\<close>, \<^verbatim>\<open>split\<close> and \<^verbatim>\<open>trim\<close> work on code units. The backing file is modelled
  by the text that \<^verbatim>\<open>fs.readFile(path, "utf-8")\<close> returns and \<^verbatim>\<open>fs.writeFile\<close> receives.
\<close>

type_synonym code_unit = "16 word"
type_synonym jsstring = "code_unit list"

definition chr16 :: "char \<Rightarrow> code_unit" where
  "chr16 c = of_nat (of_char c)"

definition lit :: "string \<Rightarrow> jsstring" where
  "lit s = map chr16 s"

text \<open>\<^verbatim>\<open>data.split("\n")\<close>: the pieces between the separators; never an empty array.\<close>

fun split_on :: "code_unit \<Rightarrow> jsstring \<Rightarrow> jsstring list" where
  "split_on sep [] = [[]]"
| "split_on sep (c # cs) =
     (if c = sep then [] # split_on sep cs
      else (case split_on sep cs of [] \<Rightarrow> [[c]] | l # ls \<Rightarrow> (c # l) # ls))"

text \<open>\<^verbatim>\<open>lines.join("\n")\<close>.\<close>

fun join :: "jsstring \<Rightarrow> jsstring list \<Rightarrow> jsstring" where
  "join sep [] = []"
| "join sep [x] = x"
| "join sep (x # y # ys) = x @ sep @ join sep (y # ys)"

text \<open>
  \<^verbatim>\<open>line.trim()\<close> removes white space and line terminators of ECMAScript from both ends:
  TAB, LF, VT, FF, CR, SP, NBSP, U+1680, U+2000 to U+200A, U+2028, U+2029, U+202F, U+205F,
  U+3000 and U+FEFF.
\<close>

definition is_white_space :: "code_unit \<Rightarrow> bool" where
  "is_white_space c \<longleftrightarrow>
     (0x09 \<le> c \<and> c \<le> 0x0D) \<or> c = 0x20 \<or> c = 0xA0 \<or> c = 0x1680 \<or>
     (0x2000 \<le> c \<and> c \<le> 0x200A) \<or> c = 0x2028 \<or> c = 0x2029 \<or> c = 0x202F \<or>
     c = 0x205F \<or> c = 0x3000 \<or> c = 0xFEFF"

definition trim :: "jsstring \<Rightarrow> jsstring" where
  "trim s = rev (dropWhile is_white_space (rev (dropWhile is_white_space s)))"

text \<open>\<^verbatim>\<open>s.includes(q)\<close>: \<open>q\<close> occurs in \<open>s\<close> as a contiguous run of code units.\<close>

fun str_includes :: "jsstring \<Rightarrow> jsstring \<Rightarrow> bool" where
  "str_includes [] q = (q = [])"
| "str_includes (c # cs) q = (prefix q (c # cs) \<or> str_includes cs q)"

section \<open>JSON text\<close>

text \<open>
  \<^verbatim>\<open>JSON.stringify\<close> and \<^verbatim>\<open>JSON.parse\<close> are built-ins of the runtime; they are modelled
  after ECMA-262 (QuoteJSONString, SerializeJSONObject, SerializeJSONArray) and the JSON
  grammar of ECMA-404.
\<close>

subsection \<open>Serialising\<close>

definition hex_digit :: "nat \<Rightarrow> code_unit" where
  "hex_digit n = (if n < 10 then 0x30 + of_nat n else 0x61 + of_nat (n - 10))"

definition unicode_escape :: "code_unit \<Rightarrow> jsstring" where
  "unicode_escape c =
     [0x5C, 0x75, hex_digit (unat c div 4096), hex_digit (unat c div 256 mod 16),
      hex_digit (unat c div 16 mod 16), hex_digit (unat c mod 16)]"

definition is_leading_surrogate :: "code_unit \<Rightarrow> bool" where
  "is_leading_surrogate c \<longleftrightarrow> 0xD800 \<le> c \<and> c \<le> 0xDBFF"

definition is_trailing_surrogate :: "code_unit \<Rightarrow> bool" where
  "is_trailing_surrogate c \<longleftrightarrow> 0xDC00 \<le> c \<and> c \<le> 0xDFFF"

text \<open>One code unit that is not a surrogate, as QuoteJSONString writes it.\<close>

definition quote_unit :: "code_unit \<Rightarrow> jsstring" where
  "quote_unit c =
     (if c = 0x08 then [0x5C, 0x62]
      else if c = 0x09 then [0x5C, 0x74]
      else if c = 0x0A then [0x5C, 0x6E]
      else if c = 0x0C then [0x5C, 0x66]
      else if c = 0x0D then [0x5C, 0x72]
      else if c = 0x22 then [0x5C, 0x22]
      else if c = 0x5C then [0x5C, 0x5C]
      else if c < 0x20 then unicode_escape c
      else [c])"

text \<open>
  The string is read code point by code point: a leading surrogate followed by a trailing
  one is a pair and is written as it is; a surrogate on its own is written as an escape.
\<close>

fun quote_units :: "jsstring \<Rightarrow> jsstring" where
  "quote_units [] = []"
| "quote_units [c] =
     (if is_leading_surrogate c \<or> is_trailing_surrogate c then unicode_escape c
      else quote_unit c)"
| "quote_units (c # d # cs) =
     (if is_leading_surrogate c then
        (if is_trailing_surrogate d then c # d # quote_units cs
         else unicode_escape c @ quote_units (d # cs))
      else if is_trailing_surrogate c then unicode_escape c @ quote_units (d # cs)
      else quote_unit c @ quote_units (d # cs))"

definition quote_string :: "jsstring \<Rightarrow> jsstring" where
  "quote_string s = 0x22 # quote_units s @ [0x22]"

text \<open>An array and an object, with no gap, from the texts of their parts.\<close>

definition serialize_array :: "jsstring list \<Rightarrow> jsstring" where
  "serialize_array items = 0x5B # join [0x2C] items @ [0x5D]"

definition serialize_object :: "(jsstring \<times> jsstring) list \<Rightarrow> jsstring" where
  "serialize_object members =
     0x7B # join [0x2C] (map (\<lambda>(k, v). quote_string k @ 0x3A # v) members) @ [0x7D]"

subsection \<open>Parsing\<close>

text \<open>
  A number keeps its text: the program never computes with one. An object keeps its members
  in the order of the text; a later member with the same key overrides an earlier one when a
  property is read.
\<close>

datatype json =
    JNull
  | JBool bool
  | JNumber jsstring
  | JString jsstring
  | JArray "json list"
  | JObject "(jsstring \<times> json) list"

definition is_json_ws :: "code_unit \<Rightarrow> bool" where
  "is_json_ws c \<longleftrightarrow> c = 0x20 \<or> c = 0x09 \<or> c = 0x0A \<or> c = 0x0D"

definition skip_ws :: "jsstring \<Rightarrow> jsstring" where
  "skip_ws cs = dropWhile is_json_ws cs"

definition hex_value :: "code_unit \<Rightarrow> nat option" where
  "hex_value c =
     (if 0x30 \<le> c \<and> c \<le> 0x39 then Some (unat c - 0x30)
      else if 0x61 \<le> c \<and> c \<le> 0x66 then Some (unat c - 0x61 + 10)
      else if 0x41 \<le> c \<and> c \<le> 0x46 then Some (unat c - 0x41 + 10)
      else None)"

definition hex4 :: "code_unit \<Rightarrow> code_unit \<Rightarrow> code_unit \<Rightarrow> code_unit \<Rightarrow> code_unit option" where
  "hex4 a b c d =
     (case (hex_value a, hex_value b, hex_value c, hex_value d) of
        (Some x3, Some x2, Some x1, Some x0) \<Rightarrow> Some (of_nat (4096 * x3 + 256 * x2 + 16 * x1 + x0))
      | _ \<Rightarrow> None)"

definition unescape :: "code_unit \<Rightarrow> code_unit option" where
  "unescape e =
     (if e = 0x22 then Some 0x22
      else if e = 0x5C then Some 0x5C
      else if e = 0x2F then Some 0x2F
      else if e = 0x62 then Some 0x08
      else if e = 0x66 then Some 0x0C
      else if e = 0x6E then Some 0x0A
      else if e = 0x72 then Some 0x0D
      else if e = 0x74 then Some 0x09
      else None)"

text \<open>The characters of a string after its opening quote, up to the closing quote.\<close>

fun parse_chars :: "jsstring \<Rightarrow> (jsstring \<times> jsstring) option" where
  "parse_chars [] = None"
| "parse_chars (c # cs) =
     (if c = 0x22 then Some ([], cs)
      else if c = 0x5C then
        (case cs of
           [] \<Rightarrow> None
         | e # r \<Rightarrow>
             if e = 0x75 then
               (case r of
                  h3 # h2 # h1 # h0 # r' \<Rightarrow>
                    (case hex4 h3 h2 h1 h0 of
                       None \<Rightarrow> None
                     | Some u \<Rightarrow> map_option (apfst ((#) u)) (parse_chars r'))
                | _ \<Rightarrow> None)
             else
               (case unescape e of
                  None \<Rightarrow> None
                | Some u \<Rightarrow> map_option (apfst ((#) u)) (parse_chars r)))
      else if c < 0x20 then None
      else map_option (apfst ((#) c)) (parse_chars cs))"

definition is_digit :: "code_unit \<Rightarrow> bool" where
  "is_digit c \<longleftrightarrow> 0x30 \<le> c \<and> c \<le> 0x39"

definition digits1 :: "jsstring \<Rightarrow> (jsstring \<times> jsstring) option" where
  "digits1 cs =
     (if takeWhile is_digit cs = [] then None
      else Some (takeWhile is_digit cs, dropWhile is_digit cs))"

definition parse_int :: "jsstring \<Rightarrow> (jsstring \<times> jsstring) option" where
  "parse_int cs =
     (case cs of
        [] \<Rightarrow> None
      | c # r \<Rightarrow>
          if c = 0x30 then Some ([c], r)
          else if is_digit c then Some (c # takeWhile is_digit r, dropWhile is_digit r)
          else None)"

definition parse_frac :: "jsstring \<Rightarrow> (jsstring \<times> jsstring) option" where
  "parse_frac cs =
     (case cs of
        [] \<Rightarrow> Some ([], [])
      | c # r \<Rightarrow>
          if c = 0x2E then map_option (apfst ((#) c)) (digits1 r) else Some ([], cs))"

definition parse_exp :: "jsstring \<Rightarrow> (jsstring \<times> jsstring) option" where
  "parse_exp cs =
     (case cs of
        [] \<Rightarrow> Some ([], [])
      | c # r \<Rightarrow>
          if c = 0x65 \<or> c = 0x45 then
            (case r of
               [] \<Rightarrow> None
             | s # r' \<Rightarrow>
                 if s = 0x2B \<or> s = 0x2D then map_option (apfst (\<lambda>ds. c # s # ds)) (digits1 r')
                 else map_option (apfst ((#) c)) (digits1 r))
          else Some ([], cs))"

definition parse_number :: "jsstring \<Rightarrow> (jsstring \<times> jsstring) option" where
  "parse_number cs =
     (case (case cs of [] \<Rightarrow> ([], []) | c # r \<Rightarrow> if c = 0x2D then ([c], r) else ([], cs)) of
        (sign, r0) \<Rightarrow>
          (case parse_int r0 of
             None \<Rightarrow> None
           | Some (i, r1) \<Rightarrow>
               (case parse_frac r1 of
                  None \<Rightarrow> None
                | Some (f, r2) \<Rightarrow>
                    (case parse_exp r2 of
                       None \<Rightarrow> None
                     | Some (e, r3) \<Rightarrow> Some (sign @ i @ f @ e, r3)))))"

lemma length_skip_ws: "length (skip_ws cs) \<le> length cs"
  by (simp add: skip_ws_def length_dropWhile_le)

lemma parse_chars_shorter: "parse_chars cs = Some (s, r) \<Longrightarrow> length r < length cs"
proof (induction cs arbitrary: s r rule: parse_chars.induct)
  case 1
  then show ?case by simp
next
  case (2 c cs)
  show ?case
  proof (cases "c = 0x22")
    case True
    with "2.prems" show ?thesis by simp
  next
    case quote: False
    show ?thesis
    proof (cases "c = 0x5C")
      case False
      with quote "2.prems" "2.IH"(3) show ?thesis
        by (fastforce split: if_splits)
    next
      case True
      with quote "2.prems" obtain e r0 where cs: "cs = e # r0"
        by (cases cs) auto
      show ?thesis
      proof (cases "e = 0x75")
        case False
        with True quote cs "2.prems" "2.IH"(2) show ?thesis
          by (fastforce split: option.splits)
      next
        case u: True
        with True quote cs "2.prems" obtain h3 h2 h1 h0 r' where r0: "r0 = h3 # h2 # h1 # h0 # r'"
          by (auto split: list.splits)
        with u True quote cs "2.prems" "2.IH"(1) show ?thesis
          by (fastforce split: option.splits)
      qed
    qed
  qed
qed

text \<open>
  A value, the elements of an array after its opening bracket and the members of an object
  after its opening brace. The caller has skipped the white space in front. The test on the
  lengths in the two loops is always true (every value takes at least one code unit); it is
  there for the termination proof.
\<close>

function parse_value :: "jsstring \<Rightarrow> (json \<times> jsstring) option"
  and parse_elements :: "jsstring \<Rightarrow> (json list \<times> jsstring) option"
  and parse_members :: "jsstring \<Rightarrow> ((jsstring \<times> json) list \<times> jsstring) option"
where
  "parse_value cs =
     (case cs of
        [] \<Rightarrow> None
      | c # r \<Rightarrow>
          if c = 0x22 then map_option (apfst JString) (parse_chars r)
          else if c = 0x5B then
            (case skip_ws r of
               [] \<Rightarrow> None
             | d # r' \<Rightarrow>
                 if d = 0x5D then Some (JArray [], r')
                 else map_option (apfst JArray) (parse_elements (skip_ws r)))
          else if c = 0x7B then
            (case skip_ws r of
               [] \<Rightarrow> None
             | d # r' \<Rightarrow>
                 if d = 0x7D then Some (JObject [], r')
                 else map_option (apfst JObject) (parse_members (skip_ws r)))
          else if prefix (lit ''true'') cs then Some (JBool True, drop 4 cs)
          else if prefix (lit ''false'') cs then Some (JBool False, drop 5 cs)
          else if prefix (lit ''null'') cs then Some (JNull, drop 4 cs)
          else map_option (apfst JNumber) (parse_number cs))"
| "parse_elements cs =
     (case parse_value cs of
        None \<Rightarrow> None
      | Some (v, r) \<Rightarrow>
          (case skip_ws r of
             [] \<Rightarrow> None
           | d # r' \<Rightarrow>
               if d = 0x5D then Some ([v], r')
               else if d = 0x2C \<and> length r' < length cs
                 then map_option (apfst ((#) v)) (parse_elements (skip_ws r'))
               else None))"
| "parse_members cs =
     (case cs of
        [] \<Rightarrow> None
      | q # r0 \<Rightarrow>
          if q \<noteq> 0x22 then None
          else
            (case parse_chars r0 of
               None \<Rightarrow> None
             | Some (k, r1) \<Rightarrow>
                 (case skip_ws r1 of
                    [] \<Rightarrow> None
                  | colon # r2 \<Rightarrow>
                      if colon \<noteq> 0x3A then None
                      else
                        (case parse_value (skip_ws r2) of
                           None \<Rightarrow> None
                         | Some (v, r3) \<Rightarrow>
                             (case skip_ws r3 of
                                [] \<Rightarrow> None
                              | d # r4 \<Rightarrow>
                                  if d = 0x7D then Some ([(k, v)], r4)
                                  else if d = 0x2C \<and> length r4 < length cs
                                    then map_option (apfst ((#) (k, v))) (parse_members (skip_ws r4))
                                  else None)))))"
  by pat_completeness auto
termination
  apply (relation "measure (\<lambda>x. case x of Inl cs \<Rightarrow> 2 * length cs
                                     | Inr (Inl cs) \<Rightarrow> 2 * length cs + 1
                                     | Inr (Inr cs) \<Rightarrow> 2 * length cs + 1)")
  subgoal by simp
  subgoal for cs c r d r'
    using length_skip_ws [of r] by simp
  subgoal for cs c r d r'
    using length_skip_ws [of r] by simp
  subgoal by simp
  subgoal for cs x v r d r'
    using length_skip_ws [of r'] by simp
  subgoal for cs q r0 x k r1 colon r2
    using length_skip_ws [of r2] length_skip_ws [of r1] parse_chars_shorter [of r0 k r1] by simp
  subgoal for cs q r0 x k r1 colon r2 y v r3 d r4
    using length_skip_ws [of r4] by simp
  done

declare parse_value.simps [simp del] parse_elements.simps [simp del] parse_members.simps [simp del]

section \<open>Errors and the backing file\<close>

text \<open>
  What the program can throw. \<open>SystemError\<close> is an \<^verbatim>\<open>Error\<close> of the file system and
  carries its \<^verbatim>\<open>code\<close>; the others have no \<^verbatim>\<open>code\<close> property. \<open>EntityNotFound\<close> is the
  \<^verbatim>\<open>new Error(`Entity with name ... not found`)\<close> of \<^verbatim>\<open>addObservations\<close>. \<open>IllTyped\<close>
  is not an error of the program: it marks a record of the file that has not the fields and
  field types of the TypeScript interface it is cast to (\<^verbatim>\<open>item as Entity\<close> is unchecked), on
  which this typed model says nothing.
\<close>

datatype error =
    SystemError jsstring
  | SyntaxError
  | TypeError
  | EntityNotFound jsstring
  | IllTyped

text \<open>
  The file at \<^verbatim>\<open>MEMORY_FILE_PATH\<close>: its text when it exists, and the code with which a read or
  a write is rejected, if it is. A missing file rejects a read with \<^verbatim>\<open>ENOENT\<close>. A rejected
  write is taken to leave the file as it was.
\<close>

record fs =
  file_text :: "jsstring option"
  read_error :: "jsstring option"
  write_error :: "jsstring option"

definition fs_readFile :: "fs \<Rightarrow> (error + jsstring) \<times> fs" where
  "fs_readFile st =
     (case read_error st of
        Some code \<Rightarrow> (Inl (SystemError code), st)
      | None \<Rightarrow>
          (case file_text st of
             None \<Rightarrow> (Inl (SystemError (lit ''ENOENT'')), st)
           | Some data \<Rightarrow> (Inr data, st)))"

definition fs_writeFile :: "jsstring \<Rightarrow> fs \<Rightarrow> (error + unit) \<times> fs" where
  "fs_writeFile data st =
     (case write_error st of
        Some code \<Rightarrow> (Inl (SystemError code), st)
      | None \<Rightarrow> (Inr (), st\<lparr>file_text := Some data\<rparr>))"

section \<open>The knowledge graph\<close>

record Entity =
  name :: jsstring
  entityType :: jsstring
  observations :: "jsstring list"

record Relation =
  r_from :: jsstring
  r_to :: jsstring
  relationType :: jsstring

record KnowledgeGraph =
  entities :: "Entity list"
  relations :: "Relation list"

record ObservationInput =
  entityName :: jsstring
  contents :: "jsstring list"

subsection \<open>Reading the file: \<^verbatim>\<open>loadGraph\<close>\<close>

definition JSON_parse :: "jsstring \<Rightarrow> error + json" where
  "JSON_parse text =
     (case parse_value (skip_ws text) of
        None \<Rightarrow> Inl SyntaxError
      | Some (v, r) \<Rightarrow> if skip_ws r = [] then Inr v else Inl SyntaxError)"

text \<open>A property of a parsed object: the last member with that key.\<close>

definition get_member :: "(jsstring \<times> json) list \<Rightarrow> jsstring \<Rightarrow> json option" where
  "get_member ms k = map_of (rev ms) k"

text \<open>
  \<^verbatim>\<open>item.type\<close>: a \<^verbatim>\<open>TypeError\<close> on \<^verbatim>\<open>null\<close>, \<^verbatim>\<open>undefined\<close> on a number, a boolean, a
  string, an array and an object without the key.
\<close>

definition item_type :: "json \<Rightarrow> error + json option" where
  "item_type item =
     (case item of
        JNull \<Rightarrow> Inl TypeError
      | JObject ms \<Rightarrow> Inr (get_member ms (lit ''type''))
      | _ \<Rightarrow> Inr None)"

definition as_string :: "json \<Rightarrow> jsstring option" where
  "as_string v = (case v of JString s \<Rightarrow> Some s | _ \<Rightarrow> None)"

definition as_strings :: "json \<Rightarrow> jsstring list option" where
  "as_strings v = (case v of JArray vs \<Rightarrow> those (map as_string vs) | _ \<Rightarrow> None)"

text \<open>
  \<^verbatim>\<open>item as Entity\<close> and \<^verbatim>\<open>item as Relation\<close>, for an item that is an object with the
  discriminant and exactly the fields of the interface, each of its declared type.
\<close>

definition as_Entity :: "json \<Rightarrow> Entity option" where
  "as_Entity item =
     (case item of
        JObject ms \<Rightarrow>
          if set (map fst ms) = {lit ''type'', lit ''name'', lit ''entityType'', lit ''observations''}
          then
            (case (Option.bind (get_member ms (lit ''name'')) as_string,
                   Option.bind (get_member ms (lit ''entityType'')) as_string,
                   Option.bind (get_member ms (lit ''observations'')) as_strings) of
               (Some n, Some t, Some os) \<Rightarrow> Some \<lparr>name = n, entityType = t, observations = os\<rparr>
             | _ \<Rightarrow> None)
          else None
      | _ \<Rightarrow> None)"

definition as_Relation :: "json \<Rightarrow> Relation option" where
  "as_Relation item =
     (case item of
        JObject ms \<Rightarrow>
          if set (map fst ms) = {lit ''type'', lit ''from'', lit ''to'', lit ''relationType''}
          then
            (case (Option.bind (get_member ms (lit ''from'')) as_string,
                   Option.bind (get_member ms (lit ''to'')) as_string,
                   Option.bind (get_member ms (lit ''relationType'')) as_string) of
               (Some f, Some t, Some ty) \<Rightarrow> Some \<lparr>r_from = f, r_to = t, relationType = ty\<rparr>
             | _ \<Rightarrow> None)
          else None
      | _ \<Rightarrow> None)"

text \<open>The callback of \<^verbatim>\<open>lines.reduce\<close>: parse the line, then the two tests on \<^verbatim>\<open>item.type\<close>.\<close>

definition reducer :: "KnowledgeGraph \<Rightarrow> jsstring \<Rightarrow> error + KnowledgeGraph" where
  "reducer graph line =
     (case JSON_parse line of
        Inl err \<Rightarrow> Inl err
      | Inr item \<Rightarrow>
          (case item_type item of
             Inl err \<Rightarrow> Inl err
           | Inr ty \<Rightarrow>
               (case (if ty = Some (JString (lit ''entity''))
                      then (case as_Entity item of
                              None \<Rightarrow> Inl IllTyped
                            | Some e \<Rightarrow> Inr (graph\<lparr>entities := entities graph @ [e]\<rparr>))
                      else Inr graph) of
                  Inl err \<Rightarrow> Inl err
                | Inr graph1 \<Rightarrow>
                    if ty = Some (JString (lit ''relation''))
                    then (case as_Relation item of
                            None \<Rightarrow> Inl IllTyped
                          | Some r \<Rightarrow> Inr (graph1\<lparr>relations := relations graph1 @ [r]\<rparr>))
                    else Inr graph1)))"

fun reduce :: "('b \<Rightarrow> 'a \<Rightarrow> error + 'b) \<Rightarrow> 'a list \<Rightarrow> 'b \<Rightarrow> error + 'b" where
  "reduce f [] acc = Inr acc"
| "reduce f (x # xs) acc = (case f acc x of Inl err \<Rightarrow> Inl err | Inr acc' \<Rightarrow> reduce f xs acc')"

definition empty_graph :: KnowledgeGraph where
  "empty_graph = \<lparr>entities = [], relations = []\<rparr>"

text \<open>The body of the \<^verbatim>\<open>try\<close> block after the read.\<close>

definition decode :: "jsstring \<Rightarrow> error + KnowledgeGraph" where
  "decode data =
     reduce reducer (filter (\<lambda>line. trim line \<noteq> []) (split_on 0x0A data)) empty_graph"

text \<open>
  The \<^verbatim>\<open>catch\<close> block: an error with the code \<^verbatim>\<open>ENOENT\<close> gives the empty graph, any
  other error is thrown again.
\<close>

definition load_catch :: "error \<Rightarrow> error + KnowledgeGraph" where
  "load_catch err =
     (case err of
        SystemError code \<Rightarrow> if code = lit ''ENOENT'' then Inr empty_graph else Inl err
      | _ \<Rightarrow> Inl err)"

definition loadGraph :: "fs \<Rightarrow> (error + KnowledgeGraph) \<times> fs" where
  "loadGraph st =
     (case fs_readFile st of
        (Inl err, st') \<Rightarrow> (load_catch err, st')
      | (Inr data, st') \<Rightarrow>
          (case decode data of
             Inl err \<Rightarrow> (load_catch err, st')
           | Inr graph \<Rightarrow> (Inr graph, st')))"

subsection \<open>Writing the file: \<^verbatim>\<open>saveGraph\<close>\<close>

text \<open>
  \<^verbatim>\<open>JSON.stringify({ type: "entity", ...e })\<close> and the same for a relation: the discriminant
  first, then the fields of the interface. A record carries its fields and not the order in
  which a JavaScript object lists them: the fields are written in the order of the interface.
  \<^verbatim>\<open>loadGraph\<close> reads them in any order.
\<close>

definition stringify_entity :: "Entity \<Rightarrow> jsstring" where
  "stringify_entity e =
     serialize_object
       [(lit ''type'', quote_string (lit ''entity'')),
        (lit ''name'', quote_string (name e)),
        (lit ''entityType'', quote_string (entityType e)),
        (lit ''observations'', serialize_array (map quote_string (observations e)))]"

definition stringify_relation :: "Relation \<Rightarrow> jsstring" where
  "stringify_relation r =
     serialize_object
       [(lit ''type'', quote_string (lit ''relation'')),
        (lit ''from'', quote_string (r_from r)),
        (lit ''to'', quote_string (r_to r)),
        (lit ''relationType'', quote_string (relationType r))]"

definition encode :: "KnowledgeGraph \<Rightarrow> jsstring" where
  "encode graph =
     join [0x0A] (map stringify_entity (entities graph) @ map stringify_relation (relations graph))"

definition saveGraph :: "KnowledgeGraph \<Rightarrow> fs \<Rightarrow> (error + unit) \<times> fs" where
  "saveGraph graph st = fs_writeFile (encode graph) st"

subsection \<open>The operations\<close>

definition createEntities :: "Entity list \<Rightarrow> fs \<Rightarrow> (error + Entity list) \<times> fs" where
  "createEntities es st =
     (case loadGraph st of
        (Inl err, st1) \<Rightarrow> (Inl err, st1)
      | (Inr graph, st1) \<Rightarrow>
          (let newEntities =
                 filter (\<lambda>e. \<not> list_ex (\<lambda>existingEntity. name existingEntity = name e)
                                  (entities graph)) es
           in (case saveGraph (graph\<lparr>entities := entities graph @ newEntities\<rparr>) st1 of
                 (Inl err, st2) \<Rightarrow> (Inl err, st2)
               | (Inr _, st2) \<Rightarrow> (Inr newEntities, st2))))"

definition createRelations :: "Relation list \<Rightarrow> fs \<Rightarrow> (error + Relation list) \<times> fs" where
  "createRelations rs st =
     (case loadGraph st of
        (Inl err, st1) \<Rightarrow> (Inl err, st1)
      | (Inr graph, st1) \<Rightarrow>
          (let newRelations =
                 filter (\<lambda>r. \<not> list_ex (\<lambda>existingRelation.
                                   r_from existingRelation = r_from r \<and>
                                   r_to existingRelation = r_to r \<and>
                                   relationType existingRelation = relationType r)
                                  (relations graph)) rs
           in (case saveGraph (graph\<lparr>relations := relations graph @ newRelations\<rparr>) st1 of
                 (Inl err, st2) \<Rightarrow> (Inl err, st2)
               | (Inr _, st2) \<Rightarrow> (Inr newRelations, st2))))"

text \<open>
  \<^verbatim>\<open>graph.entities.find\<close> returns the first entity with the name, and the \<^verbatim>\<open>push\<close> changes
  that object inside the graph.
\<close>

fun update_first :: "('a \<Rightarrow> bool) \<Rightarrow> ('a \<Rightarrow> 'a) \<Rightarrow> 'a list \<Rightarrow> 'a list" where
  "update_first P f [] = []"
| "update_first P f (x # xs) = (if P x then f x # xs else x # update_first P f xs)"

text \<open>
  The \<^verbatim>\<open>observations.map\<close> of \<^verbatim>\<open>addObservations\<close>, item after item on the entities of the
  graph; a result is the pair of \<^verbatim>\<open>entityName\<close> and \<^verbatim>\<open>addedObservations\<close>. The first item
  whose entity is missing throws, and the items after it are not looked at.
\<close>

fun add_items ::
  "ObservationInput list \<Rightarrow> Entity list \<Rightarrow> error + ((jsstring \<times> jsstring list) list \<times> Entity list)"
where
  "add_items [] es = Inr ([], es)"
| "add_items (obs # rest) es =
     (case find (\<lambda>e. name e = entityName obs) es of
        None \<Rightarrow> Inl (EntityNotFound (entityName obs))
      | Some entity \<Rightarrow>
          (let newObservations =
                 filter (\<lambda>content. content \<notin> set (observations entity)) (contents obs)
           in (case add_items rest
                      (update_first (\<lambda>e. name e = entityName obs)
                         (\<lambda>e. e\<lparr>observations := observations e @ newObservations\<rparr>) es) of
                 Inl err \<Rightarrow> Inl err
               | Inr (results, es') \<Rightarrow> Inr ((entityName obs, newObservations) # results, es'))))"

definition addObservations ::
  "ObservationInput list \<Rightarrow> fs \<Rightarrow> (error + (jsstring \<times> jsstring list) list) \<times> fs"
where
  "addObservations batch st =
     (case loadGraph st of
        (Inl err, st1) \<Rightarrow> (Inl err, st1)
      | (Inr graph, st1) \<Rightarrow>
          (case add_items batch (entities graph) of
             Inl err \<Rightarrow> (Inl err, st1)
           | Inr (results, es') \<Rightarrow>
               (case saveGraph (graph\<lparr>entities := es'\<rparr>) st1 of
                  (Inl err, st2) \<Rightarrow> (Inl err, st2)
                | (Inr _, st2) \<Rightarrow> (Inr results, st2))))"

definition deleteEntities :: "jsstring list \<Rightarrow> fs \<Rightarrow> (error + unit) \<times> fs" where
  "deleteEntities entityNames st =
     (case loadGraph st of
        (Inl err, st1) \<Rightarrow> (Inl err, st1)
      | (Inr graph, st1) \<Rightarrow>
          saveGraph
            (graph\<lparr>entities := filter (\<lambda>e. name e \<notin> set entityNames) (entities graph),
                   relations := filter (\<lambda>r. r_from r \<notin> set entityNames \<and> r_to r \<notin> set entityNames)
                                  (relations graph)\<rparr>)
            st1)"

definition readGraph :: "fs \<Rightarrow> (error + KnowledgeGraph) \<times> fs" where
  "readGraph st = loadGraph st"

text \<open>
  The relations kept by both queries: those whose two ends are in the \<^verbatim>\<open>Set\<close> of the names
  of the entities kept.
\<close>

definition filter_relations :: "Entity list \<Rightarrow> Relation list \<Rightarrow> Relation list" where
  "filter_relations filteredEntities rs =
     filter (\<lambda>r. r_from r \<in> set (map name filteredEntities) \<and>
                 r_to r \<in> set (map name filteredEntities)) rs"

text \<open>
  \<^verbatim>\<open>String.prototype.toLowerCase\<close> follows the case tables of Unicode, which are not part of
  the repository: it is the first argument of \<open>searchNodes\<close>.
\<close>

definition search_match :: "(jsstring \<Rightarrow> jsstring) \<Rightarrow> jsstring \<Rightarrow> Entity \<Rightarrow> bool" where
  "search_match toLowerCase query e \<longleftrightarrow>
     str_includes (toLowerCase (name e)) (toLowerCase query) \<or>
     str_includes (toLowerCase (entityType e)) (toLowerCase query) \<or>
     list_ex (\<lambda>ob. str_includes (toLowerCase ob) (toLowerCase query)) (observations e)"

definition searchNodes ::
  "(jsstring \<Rightarrow> jsstring) \<Rightarrow> jsstring \<Rightarrow> fs \<Rightarrow> (error + KnowledgeGraph) \<times> fs"
where
  "searchNodes toLowerCase query st =
     (case loadGraph st of
        (Inl err, st1) \<Rightarrow> (Inl err, st1)
      | (Inr graph, st1) \<Rightarrow>
          (let filteredEntities = filter (search_match toLowerCase query) (entities graph)
           in (Inr \<lparr>entities = filteredEntities,
                    relations = filter_relations filteredEntities (relations graph)\<rparr>, st1)))"

definition openNodes :: "jsstring list \<Rightarrow> fs \<Rightarrow> (error + KnowledgeGraph) \<times> fs" where
  "openNodes names st =
     (case loadGraph st of
        (Inl err, st1) \<Rightarrow> (Inl err, st1)
      | (Inr graph, st1) \<Rightarrow>
          (let filteredEntities = filter (\<lambda>e. name e \<in> set names) (entities graph)
           in (Inr \<lparr>entities = filteredEntities,
                    relations = filter_relations filteredEntities (relations graph)\<rparr>, st1)))"

subsection \<open>The lines of the file\<close>

text \<open>
  The object that \<^verbatim>\<open>{ type: "entity", ...e }\<close> and \<^verbatim>\<open>{ type: "relation", ...r }\<close> build, as
  \<^verbatim>\<open>JSON.parse\<close> gives it back, and the lines that \<^verbatim>\<open>saveGraph\<close> joins.
\<close>

definition entity_item :: "Entity \<Rightarrow> json" where
  "entity_item e =
     JObject [(lit ''type'', JString (lit ''entity'')), (lit ''name'', JString (name e)),
              (lit ''entityType'', JString (entityType e)),
              (lit ''observations'', JArray (map JString (observations e)))]"

definition relation_item :: "Relation \<Rightarrow> json" where
  "relation_item r =
     JObject [(lit ''type'', JString (lit ''relation'')), (lit ''from'', JString (r_from r)),
              (lit ''to'', JString (r_to r)), (lit ''relationType'', JString (relationType r))]"

definition graph_lines :: "KnowledgeGraph \<Rightarrow> jsstring list" where
  "graph_lines graph = map stringify_entity (entities graph) @ map stringify_relation (relations graph)"

text \<open>The identity of a relation: its \<^verbatim>\<open>from\<close>, \<^verbatim>\<open>to\<close> and \<^verbatim>\<open>relationType\<close>.\<close>

definition relation_key :: "Relation \<Rightarrow> jsstring \<times> jsstring \<times> jsstring" where
  "relation_key r = (r_from r, r_to r, relationType r)"

text \<open>
  The graph that the text of the file decodes to; the empty graph when there is no file.
\<close>

definition persisted :: "fs \<Rightarrow> error + KnowledgeGraph" where
  "persisted st = (case file_text st of None \<Rightarrow> Inr empty_graph | Some data \<Rightarrow> decode data)"


subsection \<open>A store for the examples\<close>

text \<open>
  What \<^verbatim>\<open>toLowerCase\<close> does to the letters A to Z, for strings of Basic Latin; and a file
  that holds three entities and three relations, one of them to an entity that is not there.
\<close>

definition ascii_toLowerCase :: "jsstring \<Rightarrow> jsstring" where
  "ascii_toLowerCase s = map (\<lambda>c. if 0x41 \<le> c \<and> c \<le> 0x5A then c + 0x20 else c) s"

definition sample_graph :: KnowledgeGraph where
  "sample_graph =
     \<lparr>entities =
        [\<lparr>name = lit ''Alice'', entityType = lit ''person'', observations = [lit ''Likes COFFEE'']\<rparr>,
         \<lparr>name = lit ''Bob'', entityType = lit ''person'', observations = []\<rparr>,
         \<lparr>name = lit ''Acme'', entityType = lit ''company'', observations = []\<rparr>],
      relations =
        [\<lparr>r_from = lit ''Alice'', r_to = lit ''Bob'', relationType = lit ''knows''\<rparr>,
         \<lparr>r_from = lit ''Alice'', r_to = lit ''Acme'', relationType = lit ''works at''\<rparr>,
         \<lparr>r_from = lit ''Bob'', r_to = lit ''Zed'', relationType = lit ''knows''\<rparr>]\<rparr>"

definition sample_store :: fs where
  "sample_store = \<lparr>file_text = Some (encode sample_graph), read_error = None, write_error = None\<rparr>"

text \<open>The state before the first write: no file, and nothing that rejects a read or a write.\<close>

definition absent_store :: fs where
  "absent_store = \<lparr>file_text = None, read_error = None, write_error = None\<rparr>"

section \<open>Parsing what was serialised\<close>

subsection \<open>Strings\<close>

lemma hex_digits_all:
  "list_all (\<lambda>n. hex_value (hex_digit n) = Some n \<and> hex_digit n \<noteq> 0x0A) [0..<16]"
  by code_simp

lemma hex_value_hex_digit: "n < 16 \<Longrightarrow> hex_value (hex_digit n) = Some n"
  using hex_digits_all by (simp add: list_all_iff)

lemma hex_split:
  "4096 * (u div 4096) + 256 * (u div 256 mod 16) + 16 * (u div 16 mod 16) + u mod 16 = (u::nat)"
proof -
  have a: "u = 16 * (u div 16) + u mod 16" by simp
  have b: "u div 16 = 16 * (u div 256) + u div 16 mod 16"
    using div_mult2_eq [of u 16 16] by simp
  have c: "u div 256 = 16 * (u div 4096) + u div 256 mod 16"
    using div_mult2_eq [of u 256 16] by simp
  from a b c show ?thesis by linarith
qed

lemma hex4_unicode_escape:
  "hex4 (hex_digit (unat c div 4096)) (hex_digit (unat c div 256 mod 16))
        (hex_digit (unat c div 16 mod 16)) (hex_digit (unat c mod 16)) = Some c"
proof -
  have "unat c < 65536" using unsigned_less [of c, where 'a = nat] by simp
  then have "unat c div 4096 < 16" by simp
  then show ?thesis
    by (simp add: hex4_def hex_value_hex_digit hex_split)
qed

lemma parse_chars_unicode_escape:
  "parse_chars (unicode_escape c @ tail) = map_option (apfst ((#) c)) (parse_chars tail)"
  by (simp add: unicode_escape_def hex4_unicode_escape)

lemma parse_chars_raw:
  "c \<noteq> 0x22 \<Longrightarrow> c \<noteq> 0x5C \<Longrightarrow> \<not> c < 0x20 \<Longrightarrow>
   parse_chars (c # tail) = map_option (apfst ((#) c)) (parse_chars tail)"
  by simp


lemma parse_chars_quote_unit:
  "parse_chars (quote_unit c @ tail) = map_option (apfst ((#) c)) (parse_chars tail)"
proof -
  consider "c = 0x08" | "c = 0x09" | "c = 0x0A" | "c = 0x0C" | "c = 0x0D" | "c = 0x22" | "c = 0x5C"
    | "c \<noteq> 0x08" "c \<noteq> 0x09" "c \<noteq> 0x0A" "c \<noteq> 0x0C" "c \<noteq> 0x0D" "c \<noteq> 0x22" "c \<noteq> 0x5C" "c < 0x20"
    | "c \<noteq> 0x08" "c \<noteq> 0x09" "c \<noteq> 0x0A" "c \<noteq> 0x0C" "c \<noteq> 0x0D" "c \<noteq> 0x22" "c \<noteq> 0x5C" "\<not> c < 0x20"
    by blast
  then show ?thesis
  proof cases
    case 8
    then show ?thesis
      by (simp only: quote_unit_def if_False if_True parse_chars_unicode_escape)
  next
    case 9
    then show ?thesis
      by (simp add: quote_unit_def)
  qed (simp_all add: quote_unit_def unescape_def)
qed

lemma surrogate_raw:
  assumes "is_leading_surrogate c \<or> is_trailing_surrogate c"
  shows "c \<noteq> 0x22" "c \<noteq> 0x5C" "\<not> c < 0x20"
  using assms by (auto simp: is_leading_surrogate_def is_trailing_surrogate_def word_le_nat_alt word_less_nat_alt)

lemma parse_chars_quote_units:
  "parse_chars (quote_units s @ 0x22 # rest) = Some (s, rest)"
proof (induction s rule: quote_units.induct)
  case 1
  show ?case by simp
next
  case (2 c)
  show ?case
    by (simp only: quote_units.simps parse_chars_unicode_escape parse_chars_quote_unit split: if_split)
       simp
next
  case (3 c d cs)
  show ?case
  proof (cases "is_leading_surrogate c")
    case lead: True
    show ?thesis
    proof (cases "is_trailing_surrogate d")
      case True
      with lead 3(1) show ?thesis
        using surrogate_raw [of c] surrogate_raw [of d]
        by (simp del: parse_chars.simps add: parse_chars_raw)
    next
      case False
      with lead 3(2) show ?thesis
        by (simp del: parse_chars.simps add: parse_chars_unicode_escape)
    qed
  next
    case nolead: False
    show ?thesis
    proof (cases "is_trailing_surrogate c")
      case True
      with nolead 3(3) show ?thesis
        by (simp del: parse_chars.simps quote_units.simps add: quote_units.simps(3) parse_chars_unicode_escape)
    next
      case False
      with nolead 3(4) show ?thesis
        by (simp del: parse_chars.simps quote_units.simps add: quote_units.simps(3) parse_chars_quote_unit)
    qed
  qed
qed


subsection \<open>Arrays and objects\<close>

lemma skip_ws_Cons: "\<not> is_json_ws c \<Longrightarrow> skip_ws (c # cs) = c # cs"
  by (simp add: skip_ws_def)

lemma not_ws_punct:
  "\<not> is_json_ws 0x22" "\<not> is_json_ws 0x2C" "\<not> is_json_ws 0x3A" "\<not> is_json_ws 0x5B"
  "\<not> is_json_ws 0x5D" "\<not> is_json_ws 0x7B" "\<not> is_json_ws 0x7D"
  by (simp_all add: is_json_ws_def)

lemma skip_ws_quote_string: "skip_ws (quote_string s @ rest) = quote_string s @ rest"
  by (simp add: quote_string_def skip_ws_Cons not_ws_punct)

lemma parse_value_string: "parse_value (0x22 # r) = map_option (apfst JString) (parse_chars r)"
  by (simp add: parse_value.simps [of "0x22 # r"])

lemma parse_value_array:
  "parse_value (0x5B # r) =
     (case skip_ws r of [] \<Rightarrow> None
      | d # r' \<Rightarrow> if d = 0x5D then Some (JArray [], r')
                 else map_option (apfst JArray) (parse_elements (skip_ws r)))"
  by (simp add: parse_value.simps [of "0x5B # r"])

lemma parse_value_object:
  "parse_value (0x7B # r) =
     (case skip_ws r of [] \<Rightarrow> None
      | d # r' \<Rightarrow> if d = 0x7D then Some (JObject [], r')
                 else map_option (apfst JObject) (parse_members (skip_ws r)))"
  by (simp add: parse_value.simps [of "0x7B # r"])

lemma parse_value_quote_string:
  "parse_value (quote_string s @ rest) = Some (JString s, rest)"
  by (simp add: parse_value_string quote_string_def parse_chars_quote_units)

lemma join_Cons: "join sep (x # xs) = (if xs = [] then x else x @ sep @ join sep xs)"
  by (cases xs) simp_all

lemma length_quote_string: "0 < length (quote_string s)"
  by (simp add: quote_string_def)

lemma parse_elements_strings:
  "parse_elements (join [0x2C] (map quote_string (x # xs)) @ 0x5D # rest)
     = Some (map JString (x # xs), rest)"
proof (induction xs arbitrary: x)
  case Nil
  show ?case
    by (simp add: parse_elements.simps [of "quote_string x @ 0x5D # rest"]
          parse_value_quote_string skip_ws_Cons not_ws_punct)
next
  case (Cons y ys)
  define tail where "tail = join [0x2C] (map quote_string (y # ys)) @ 0x5D # rest"
  have tail: "skip_ws tail = tail"
    by (simp add: tail_def join_Cons skip_ws_quote_string del: join.simps)
  have IH: "parse_elements tail = Some (map JString (y # ys), rest)"
    unfolding tail_def by (rule Cons.IH)
  have "parse_elements (quote_string x @ 0x2C # tail) = Some (JString x # map JString (y # ys), rest)"
    using length_quote_string [of x]
    by (simp add: parse_elements.simps [of "quote_string x @ 0x2C # tail"]
          parse_value_quote_string skip_ws_Cons not_ws_punct tail IH)
  then show ?case
    by (simp add: tail_def join_Cons del: join.simps)
qed

lemma parse_value_strings:
  "parse_value (serialize_array (map quote_string xs) @ rest) = Some (JArray (map JString xs), rest)"
proof (cases xs)
  case Nil
  then show ?thesis
    by (simp add: serialize_array_def parse_value_array skip_ws_Cons not_ws_punct)
next
  case (Cons y ys)
  define body where "body = join [0x2C] (map quote_string (y # ys)) @ 0x5D # rest"
  have skip: "skip_ws body = body"
    by (simp add: body_def join_Cons skip_ws_quote_string del: join.simps)
  have hd: "\<exists>r'. body = 0x22 # r'"
    by (simp add: body_def join_Cons quote_string_def del: join.simps)
  have pe: "parse_elements body = Some (map JString (y # ys), rest)"
    unfolding body_def by (rule parse_elements_strings)
  from hd obtain r' where r': "body = 0x22 # r'" ..
  from skip r' have "skip_ws body = 0x22 # r'" by simp
  then have "parse_value (0x5B # body) = map_option (apfst JArray) (parse_elements (0x22 # r'))"
    by (simp add: parse_value_array)
  also from pe r' have "parse_elements (0x22 # r') = Some (map JString (y # ys), rest)" by simp
  finally have "parse_value (0x5B # body) = Some (JArray (map JString (y # ys)), rest)" by simp
  with Cons show ?thesis
    by (simp add: serialize_array_def body_def del: join.simps)
qed


lemma parse_members_step:
  assumes "parse_value (t @ tail) = Some (v, tail)" and "skip_ws (t @ tail) = t @ tail"
  shows "parse_members (quote_string k @ 0x3A # t @ tail) =
           (case skip_ws tail of
              [] \<Rightarrow> None
            | d # r4 \<Rightarrow>
                if d = 0x7D then Some ([(k, v)], r4)
                else if d = 0x2C \<and> length r4 < length (quote_string k @ 0x3A # t @ tail)
                  then map_option (apfst ((#) (k, v))) (parse_members (skip_ws r4))
                else None)"
proof -
  have "quote_string k @ 0x3A # t @ tail = 0x22 # (quote_units k @ 0x22 # 0x3A # t @ tail)"
    by (simp add: quote_string_def)
  then show ?thesis
    using assms
    by (simp add: parse_members.simps [of "0x22 # (quote_units k @ 0x22 # 0x3A # t @ tail)"]
          parse_chars_quote_units skip_ws_Cons not_ws_punct split: list.split)
qed

lemma parse_members_join:
  "ms \<noteq> [] \<Longrightarrow>
   \<forall>(k, t, v) \<in> set ms. \<forall>rest. parse_value (t @ rest) = Some (v, rest) \<and> skip_ws (t @ rest) = t @ rest \<Longrightarrow>
   parse_members (join [0x2C] (map (\<lambda>(k, t, v). quote_string k @ 0x3A # t) ms) @ 0x7D # rest)
     = Some (map (\<lambda>(k, t, v). (k, v)) ms, rest)"
proof (induction ms rule: list_nonempty_induct)
  case (single m)
  obtain k t v where m: "m = (k, t, v)" by (cases m)
  with single have "parse_value (t @ 0x7D # rest) = Some (v, 0x7D # rest)"
    and "skip_ws (t @ 0x7D # rest) = t @ 0x7D # rest" by simp_all
  from parse_members_step [OF this, of k] m show ?case
    by (simp add: skip_ws_Cons not_ws_punct)
next
  case (cons m ms)
  obtain k t v where m: "m = (k, t, v)" by (cases m)
  define more where "more = join [0x2C] (map (\<lambda>(k, t, v). quote_string k @ 0x3A # t) ms) @ 0x7D # rest"
  from cons.prems have all: "\<forall>(k, t, v) \<in> set ms. \<forall>rest. parse_value (t @ rest) = Some (v, rest) \<and> skip_ws (t @ rest) = t @ rest"
    by simp
  have IH: "parse_members more = Some (map (\<lambda>(k, t, v). (k, v)) ms, rest)"
    unfolding more_def by (rule cons.IH [OF all])
  from cons.hyps obtain m' ms' where ms: "ms = m' # ms'" by (cases ms) auto
  obtain k' t' v' where m': "m' = (k', t', v')" by (cases m')
  have skip_more: "skip_ws more = more"
    by (simp add: more_def ms m' join_Cons skip_ws_quote_string del: join.simps)
  from cons.prems m have "parse_value (t @ 0x2C # more) = Some (v, 0x2C # more)"
    and "skip_ws (t @ 0x2C # more) = t @ 0x2C # more" by simp_all
  from parse_members_step [OF this, of k]
  have "parse_members (quote_string k @ 0x3A # t @ 0x2C # more) = Some ((k, v) # map (\<lambda>(k, t, v). (k, v)) ms, rest)"
    by (simp add: skip_ws_Cons not_ws_punct skip_more IH)
  with m cons.hyps show ?case
    by (simp add: more_def join_Cons del: join.simps)
qed


lemma parse_value_serialize_object:
  assumes "ms \<noteq> []"
    and "\<forall>(k, t, v) \<in> set ms. \<forall>rest. parse_value (t @ rest) = Some (v, rest) \<and> skip_ws (t @ rest) = t @ rest"
  shows "parse_value (serialize_object (map (\<lambda>(k, t, v). (k, t)) ms) @ rest)
           = Some (JObject (map (\<lambda>(k, t, v). (k, v)) ms), rest)"
proof -
  define body where "body = join [0x2C] (map (\<lambda>(k, t, v). quote_string k @ 0x3A # t) ms) @ 0x7D # rest"
  have texts: "map (\<lambda>(k, v). quote_string k @ 0x3A # v) (map (\<lambda>(k, t, v). (k, t)) ms)
                 = map (\<lambda>(k, t, v). quote_string k @ 0x3A # t) ms"
    by (induction ms) auto
  have whole: "serialize_object (map (\<lambda>(k, t, v). (k, t)) ms) @ rest = 0x7B # body"
    unfolding serialize_object_def body_def texts by simp
  from assms(1) obtain m ms' where ms: "ms = m # ms'" by (cases ms) auto
  obtain k t v where m: "m = (k, t, v)" by (cases m)
  have hd: "\<exists>r'. body = 0x22 # r'"
    by (simp add: body_def ms m join_Cons quote_string_def del: join.simps)
  then obtain r' where r': "body = 0x22 # r'" ..
  then have skip: "skip_ws body = 0x22 # r'"
    by (simp add: skip_ws_Cons not_ws_punct)
  have pm: "parse_members body = Some (map (\<lambda>(k, t, v). (k, v)) ms, rest)"
    unfolding body_def by (rule parse_members_join [OF assms])
  from skip have "parse_value (0x7B # body) = map_option (apfst JObject) (parse_members (0x22 # r'))"
    by (simp add: parse_value_object)
  also from pm r' have "parse_members (0x22 # r') = Some (map (\<lambda>(k, t, v). (k, v)) ms, rest)" by simp
  finally show ?thesis by (simp add: whole)
qed

lemma skip_ws_serialize_array: "skip_ws (serialize_array xs @ rest) = serialize_array xs @ rest"
  by (simp add: serialize_array_def skip_ws_Cons not_ws_punct)

lemma JSON_parse_object:
  assumes "ms \<noteq> []"
    and "\<forall>(k, t, v) \<in> set ms. \<forall>rest. parse_value (t @ rest) = Some (v, rest) \<and> skip_ws (t @ rest) = t @ rest"
  shows "JSON_parse (serialize_object (map (\<lambda>(k, t, v). (k, t)) ms))
           = Inr (JObject (map (\<lambda>(k, t, v). (k, v)) ms))"
proof -
  have "skip_ws (serialize_object (map (\<lambda>(k, t, v). (k, t)) ms)) = serialize_object (map (\<lambda>(k, t, v). (k, t)) ms)"
    by (simp add: serialize_object_def skip_ws_Cons not_ws_punct)
  moreover have "parse_value (serialize_object (map (\<lambda>(k, t, v). (k, t)) ms) @ []) = Some (JObject (map (\<lambda>(k, t, v). (k, v)) ms), [])"
    by (rule parse_value_serialize_object [OF assms])
  ultimately show ?thesis
    by (simp add: JSON_parse_def skip_ws_def)
qed

subsection \<open>The records of the graph\<close>

lemma JSON_parse_stringify_entity: "JSON_parse (stringify_entity e) = Inr (entity_item e)"
  using JSON_parse_object [of
      "[(lit ''type'', quote_string (lit ''entity''), JString (lit ''entity'')),
        (lit ''name'', quote_string (name e), JString (name e)),
        (lit ''entityType'', quote_string (entityType e), JString (entityType e)),
        (lit ''observations'', serialize_array (map quote_string (observations e)),
           JArray (map JString (observations e)))]"]
  by (simp add: stringify_entity_def entity_item_def parse_value_quote_string skip_ws_quote_string
        parse_value_strings skip_ws_serialize_array)

lemma JSON_parse_stringify_relation: "JSON_parse (stringify_relation r) = Inr (relation_item r)"
  using JSON_parse_object [of
      "[(lit ''type'', quote_string (lit ''relation''), JString (lit ''relation'')),
        (lit ''from'', quote_string (r_from r), JString (r_from r)),
        (lit ''to'', quote_string (r_to r), JString (r_to r)),
        (lit ''relationType'', quote_string (relationType r), JString (relationType r))]"]
  by (simp add: stringify_relation_def relation_item_def parse_value_quote_string skip_ws_quote_string)

lemma those_as_string: "those (map (as_string \<circ> JString) xs) = Some xs"
  by (induction xs) (simp_all add: as_string_def)

lemma as_Entity_entity_item: "as_Entity (entity_item e) = Some e"
  by (simp add: as_Entity_def entity_item_def get_member_def as_string_def as_strings_def
        those_as_string lit_def chr16_def insert_commute)

lemma as_Relation_relation_item: "as_Relation (relation_item r) = Some r"
  by (simp add: as_Relation_def relation_item_def get_member_def as_string_def lit_def chr16_def
        insert_commute)

lemma reducer_stringify_entity:
  "reducer graph (stringify_entity e) = Inr (graph\<lparr>entities := entities graph @ [e]\<rparr>)"
proof -
  have "item_type (entity_item e) = Inr (Some (JString (lit ''entity'')))"
    by (simp add: item_type_def entity_item_def get_member_def lit_def chr16_def)
  moreover have "lit ''entity'' \<noteq> lit ''relation''"
    by (simp add: lit_def chr16_def)
  ultimately show ?thesis
    by (simp add: reducer_def JSON_parse_stringify_entity as_Entity_entity_item)
qed

lemma reducer_stringify_relation:
  "reducer graph (stringify_relation r) = Inr (graph\<lparr>relations := relations graph @ [r]\<rparr>)"
proof -
  have "item_type (relation_item r) = Inr (Some (JString (lit ''relation'')))"
    by (simp add: item_type_def relation_item_def get_member_def lit_def chr16_def)
  moreover have "lit ''relation'' \<noteq> lit ''entity''"
    by (simp add: lit_def chr16_def)
  ultimately show ?thesis
    by (simp add: reducer_def JSON_parse_stringify_relation as_Relation_relation_item)
qed


subsection \<open>No line feed and no blank line is written\<close>

lemma hex_digit_not_newline: "n < 16 \<Longrightarrow> hex_digit n \<noteq> 0x0A"
  using hex_digits_all by (simp add: list_all_iff)

lemma unicode_escape_no_newline: "0x0A \<notin> set (unicode_escape c)"
proof -
  have "unat c < 65536" using unsigned_less [of c, where 'a = nat] by simp
  then have "unat c div 4096 < 16" by simp
  then show ?thesis
    using hex_digit_not_newline [of "unat c div 4096"] hex_digit_not_newline [of "unat c div 256 mod 16"]
      hex_digit_not_newline [of "unat c div 16 mod 16"] hex_digit_not_newline [of "unat c mod 16"]
    by (auto simp: unicode_escape_def)
qed

lemma quote_unit_no_newline: "0x0A \<notin> set (quote_unit c)"
  using unicode_escape_no_newline [of c] by (simp add: quote_unit_def)

lemma surrogate_not_newline:
  "is_leading_surrogate c \<or> is_trailing_surrogate c \<Longrightarrow> c \<noteq> 0x0A"
  by (auto simp: is_leading_surrogate_def is_trailing_surrogate_def)

lemma quote_units_no_newline: "0x0A \<notin> set (quote_units s)"
proof (induction s rule: quote_units.induct)
  case 1
  show ?case by simp
next
  case (2 c)
  show ?case
    using unicode_escape_no_newline [of c] quote_unit_no_newline [of c] by simp
next
  case (3 c d cs)
  then show ?case
    using unicode_escape_no_newline [of c] quote_unit_no_newline [of c]
      surrogate_not_newline [of c] surrogate_not_newline [of d]
    by (simp del: quote_units.simps add: quote_units.simps(3))
qed

lemma quote_string_no_newline: "0x0A \<notin> set (quote_string s)"
  using quote_units_no_newline [of s] by (simp add: quote_string_def)

lemma join_no_newline:
  "\<forall>x \<in> set xs. 0x0A \<notin> set x \<Longrightarrow> 0x0A \<notin> set (join [0x2C] xs)"
  by (induction "[0x2C] :: jsstring" xs rule: join.induct) simp_all

lemma serialize_array_no_newline: "0x0A \<notin> set (serialize_array (map quote_string xs))"
  using join_no_newline [of "map quote_string xs"] quote_string_no_newline
  by (simp add: serialize_array_def)

lemma serialize_object_no_newline:
  "\<forall>(k, t) \<in> set ms. 0x0A \<notin> set t \<Longrightarrow> 0x0A \<notin> set (serialize_object ms)"
proof -
  assume "\<forall>(k, t) \<in> set ms. 0x0A \<notin> set t"
  then have "\<forall>x \<in> set (map (\<lambda>(k, v). quote_string k @ 0x3A # v) ms). 0x0A \<notin> set x"
    using quote_string_no_newline by auto
  from join_no_newline [OF this] show ?thesis
    by (simp add: serialize_object_def)
qed

lemma stringify_entity_no_newline: "0x0A \<notin> set (stringify_entity e)"
  unfolding stringify_entity_def
  by (rule serialize_object_no_newline)
     (simp add: quote_string_no_newline serialize_array_no_newline)

lemma stringify_relation_no_newline: "0x0A \<notin> set (stringify_relation r)"
  unfolding stringify_relation_def
  by (rule serialize_object_no_newline) (simp add: quote_string_no_newline)

lemma trim_not_blank: "\<not> is_white_space c \<Longrightarrow> trim (c # s) \<noteq> []"
  by (auto simp: trim_def dropWhile_eq_Nil_conv)

lemma serialize_object_not_blank: "trim (serialize_object ms) \<noteq> []"
  unfolding serialize_object_def by (rule trim_not_blank) (simp add: is_white_space_def)

subsection \<open>Splitting what was joined\<close>

lemma split_on_not_Nil: "split_on sep s \<noteq> []"
  by (induction s) (auto split: list.splits)

lemma split_on_line: "sep \<notin> set l \<Longrightarrow> split_on sep (l @ sep # rest) = l # split_on sep rest"
  by (induction l) auto

lemma split_on_last: "sep \<notin> set l \<Longrightarrow> split_on sep l = [l]"
  by (induction l) auto

lemma split_on_join:
  "ls \<noteq> [] \<Longrightarrow> \<forall>l \<in> set ls. sep \<notin> set l \<Longrightarrow> split_on sep (join [sep] ls) = ls"
proof (induction ls rule: list_nonempty_induct)
  case (single l)
  then show ?case by (simp add: split_on_last)
next
  case (cons l ls)
  then show ?case
    by (simp add: join_Cons split_on_line del: join.simps)
qed

lemma reduce_append:
  "reduce f (xs @ ys) acc = (case reduce f xs acc of Inl err \<Rightarrow> Inl err | Inr acc' \<Rightarrow> reduce f ys acc')"
  by (induction xs arbitrary: acc) (auto split: sum.splits)

lemma reduce_entities:
  "reduce reducer (map stringify_entity es) graph = Inr (graph\<lparr>entities := entities graph @ es\<rparr>)"
  by (induction es arbitrary: graph) (simp_all add: reducer_stringify_entity)

lemma reduce_relations:
  "reduce reducer (map stringify_relation rs) graph = Inr (graph\<lparr>relations := relations graph @ rs\<rparr>)"
  by (induction rs arbitrary: graph) (simp_all add: reducer_stringify_relation)

lemma reduce_graph_lines: "reduce reducer (graph_lines graph) empty_graph = Inr graph"
  by (simp add: graph_lines_def reduce_append reduce_entities reduce_relations empty_graph_def)

lemma graph_lines_kept: "filter (\<lambda>line. trim line \<noteq> []) (graph_lines graph) = graph_lines graph"
  by (auto simp: graph_lines_def filter_id_conv stringify_entity_def stringify_relation_def
        serialize_object_not_blank)

lemma decode_encode: "decode (encode graph) = Inr graph"
proof (cases "graph_lines graph = []")
  case True
  then have "graph = empty_graph"
    by (simp add: graph_lines_def empty_graph_def)
  moreover have "trim [] = []" by (simp add: trim_def)
  ultimately show ?thesis
    by (simp add: decode_def encode_def empty_graph_def)
next
  case False
  have "\<forall>l \<in> set (graph_lines graph). 0x0A \<notin> set l"
    by (auto simp: graph_lines_def stringify_entity_no_newline stringify_relation_no_newline)
  from split_on_join [OF False this]
  have "split_on 0x0A (encode graph) = graph_lines graph"
    by (simp add: encode_def graph_lines_def)
  then show ?thesis
    by (simp add: decode_def graph_lines_kept reduce_graph_lines)
qed

section \<open>The round trip of the file\<close>

lemma snd_fs_readFile: "snd (fs_readFile st) = st"
  by (simp add: fs_readFile_def split: option.splits)

lemma snd_loadGraph: "snd (loadGraph st) = st"
proof (cases "fs_readFile st")
  case (Pair res st')
  with snd_fs_readFile [of st] have "st' = st" by simp
  with Pair show ?thesis
    by (simp add: loadGraph_def split: sum.splits)
qed

lemma loadGraph_state: "loadGraph st = (fst (loadGraph st), st)"
  using snd_loadGraph [of st] by (cases "loadGraph st") simp

lemma persisted_write: "persisted (st\<lparr>file_text := Some (encode graph)\<rparr>) = Inr graph"
  by (simp add: persisted_def decode_encode)

lemma saveGraph_result:
  "saveGraph graph st =
     (case write_error st of
        Some code \<Rightarrow> (Inl (SystemError code), st)
      | None \<Rightarrow> (Inr (), st\<lparr>file_text := Some (encode graph)\<rparr>))"
  by (simp add: saveGraph_def fs_writeFile_def)

lemma loadGraph_written:
  "read_error st = None \<Longrightarrow> loadGraph (st\<lparr>file_text := Some (encode graph)\<rparr>)
     = (Inr graph, st\<lparr>file_text := Some (encode graph)\<rparr>)"
  by (simp add: loadGraph_def fs_readFile_def decode_encode)

subsection \<open>The stores of the examples\<close>

lemma loadGraph_sample_store: "fst (loadGraph sample_store) = Inr sample_graph"
  by (simp add: sample_store_def loadGraph_def fs_readFile_def decode_encode)

lemma persisted_sample_store: "persisted sample_store = Inr sample_graph"
  by (simp add: persisted_def sample_store_def decode_encode)

lemma write_error_sample_store: "write_error sample_store = None"
  by (simp add: sample_store_def)

lemma loadGraph_absent_store: "fst (loadGraph absent_store) = Inr empty_graph"
  by (simp add: absent_store_def loadGraph_def fs_readFile_def load_catch_def)

lemma saveGraph_ok:
  "fst (saveGraph graph st) = Inr u \<Longrightarrow> snd (saveGraph graph st) = st\<lparr>file_text := Some (encode graph)\<rparr>"
  by (simp add: saveGraph_result split: option.splits)

subsection \<open>Saving, then loading\<close>

text \<open>
  C6 (round trip): for every graph, decoding the text that encoding it produces gives the
  graph back, with the same entities (name, entityType and observations, in order) and the
  same relations (from, to and relationType), here even in the same order; and when the file
  can be written and read, \<^verbatim>\<open>loadGraph\<close> after \<^verbatim>\<open>saveGraph\<close> returns the graph saved.
\<close>

theorem decode_encode_round_trip:
  "decode (encode graph) = Inr graph \<and>
   (read_error st = None \<and> write_error st = None \<longrightarrow>
      fst (loadGraph (snd (saveGraph graph st))) = Inr graph)"
proof (intro conjI impI)
  show "decode (encode graph) = Inr graph"
    by (rule decode_encode)
next
  assume "read_error st = None \<and> write_error st = None"
  then have "snd (saveGraph graph st) = st\<lparr>file_text := Some (encode graph)\<rparr>"
    and "read_error st = None"
    by (simp_all add: saveGraph_result)
  then show "fst (loadGraph (snd (saveGraph graph st))) = Inr graph"
    by (simp add: loadGraph_written)
qed

text \<open>
  At a graph with an observation made of a quote, a backslash, a line feed and a surrogate on
  its own, saved from the state with no file.
\<close>

theorem decode_encode_round_trip_witness:
  "read_error \<lparr>file_text = None, read_error = None, write_error = None\<rparr> = None \<and>
   write_error \<lparr>file_text = None, read_error = None, write_error = None\<rparr> = None \<and>
   fst (loadGraph (snd (saveGraph
          \<lparr>entities = [\<lparr>name = lit ''A'', entityType = lit ''person'', observations = [lit ''likes tea'', [0x22, 0x5C, 0x0A, 0xD800]]\<rparr>,
                       \<lparr>name = lit ''B'', entityType = lit ''person'', observations = []\<rparr>],
           relations = [\<lparr>r_from = lit ''A'', r_to = lit ''B'', relationType = lit ''knows''\<rparr>]\<rparr>
          \<lparr>file_text = None, read_error = None, write_error = None\<rparr>)))
     = Inr \<lparr>entities = [\<lparr>name = lit ''A'', entityType = lit ''person'', observations = [lit ''likes tea'', [0x22, 0x5C, 0x0A, 0xD800]]\<rparr>,
                       \<lparr>name = lit ''B'', entityType = lit ''person'', observations = []\<rparr>],
           relations = [\<lparr>r_from = lit ''A'', r_to = lit ''B'', relationType = lit ''knows''\<rparr>]\<rparr>"
  using decode_encode_round_trip [of
          "\<lparr>entities = [\<lparr>name = lit ''A'', entityType = lit ''person'', observations = [lit ''likes tea'', [0x22, 0x5C, 0x0A, 0xD800]]\<rparr>,
                       \<lparr>name = lit ''B'', entityType = lit ''person'', observations = []\<rparr>],
           relations = [\<lparr>r_from = lit ''A'', r_to = lit ''B'', relationType = lit ''knows''\<rparr>]\<rparr>"
          "\<lparr>file_text = None, read_error = None, write_error = None\<rparr>"]
  by simp

section \<open>Reading never writes\<close>

text \<open>
  C9: \<^verbatim>\<open>readGraph\<close>, \<^verbatim>\<open>searchNodes\<close> and \<^verbatim>\<open>openNodes\<close> never write the backing file: for
  every state of the file, every query and every list of names, the state after the call is
  the state before it, whether the call returns a graph or throws.
\<close>

theorem read_operations_do_not_write:
  "snd (readGraph st) = st \<and>
   snd (searchNodes toLowerCase query st) = st \<and>
   snd (openNodes names st) = st"
proof -
  obtain res st1 where load: "loadGraph st = (res, st1)"
    by (cases "loadGraph st")
  with snd_loadGraph [of st] have "st1 = st" by simp
  with load show ?thesis
    by (simp add: readGraph_def searchNodes_def openNodes_def Let_def split: sum.splits)
qed

section \<open>Reading a file that cannot be read\<close>

lemma loadGraph_read_failed:
  "fst (fs_readFile st) = Inl err \<Longrightarrow> fst (loadGraph st) = load_catch err"
  by (cases "fs_readFile st") (simp add: loadGraph_def)

lemma filter_relations_Nil: "filter_relations es [] = []"
  by (simp add: filter_relations_def)

text \<open>
  C8 (cold start): when the read of the backing file fails because the file does not exist
  (the error code \<^verbatim>\<open>ENOENT\<close>), \<^verbatim>\<open>readGraph\<close>, \<^verbatim>\<open>searchNodes\<close> and \<^verbatim>\<open>openNodes\<close> return
  the empty graph and raise nothing; when the read fails with any other error, each of them
  fails with that same error.
\<close>

theorem read_failure_cold_start_or_propagated:
  assumes "fst (fs_readFile st) = Inl err"
  shows "if err = SystemError (lit ''ENOENT'')
         then fst (readGraph st) = Inr \<lparr>entities = [], relations = []\<rparr> \<and>
              fst (searchNodes toLowerCase query st) = Inr \<lparr>entities = [], relations = []\<rparr> \<and>
              fst (openNodes names st) = Inr \<lparr>entities = [], relations = []\<rparr>
         else fst (readGraph st) = Inl err \<and>
              fst (searchNodes toLowerCase query st) = Inl err \<and>
              fst (openNodes names st) = Inl err"
proof -
  have sys: "\<exists>code. err = SystemError code"
    using assms by (auto simp: fs_readFile_def split: option.splits)
  from loadGraph_read_failed [OF assms] loadGraph_state [of st]
  have load: "loadGraph st = (load_catch err, st)" by simp
  show ?thesis
  proof (cases "err = SystemError (lit ''ENOENT'')")
    case True
    then have "load_catch err = Inr empty_graph" by (simp add: load_catch_def)
    with load True show ?thesis
      by (simp add: readGraph_def searchNodes_def openNodes_def empty_graph_def filter_relations_Nil)
  next
    case False
    with sys have "load_catch err = Inl err"
      by (auto simp: load_catch_def split: if_splits)
    with load False show ?thesis
      by (simp add: readGraph_def searchNodes_def openNodes_def)
  qed
qed

theorem read_failure_cold_start_or_propagated_witness:
  "fst (fs_readFile \<lparr>file_text = None, read_error = None, write_error = None\<rparr>)
     = Inl (SystemError (lit ''ENOENT'')) \<and>
   fst (readGraph \<lparr>file_text = None, read_error = None, write_error = None\<rparr>)
     = Inr \<lparr>entities = [], relations = []\<rparr> \<and>
   fst (searchNodes id (lit ''a'') \<lparr>file_text = None, read_error = None, write_error = None\<rparr>)
     = Inr \<lparr>entities = [], relations = []\<rparr> \<and>
   fst (openNodes [lit ''A''] \<lparr>file_text = None, read_error = None, write_error = None\<rparr>)
     = Inr \<lparr>entities = [], relations = []\<rparr> \<and>
   fst (fs_readFile \<lparr>file_text = Some [], read_error = Some (lit ''EACCES''), write_error = None\<rparr>)
     = Inl (SystemError (lit ''EACCES'')) \<and>
   fst (readGraph \<lparr>file_text = Some [], read_error = Some (lit ''EACCES''), write_error = None\<rparr>)
     = Inl (SystemError (lit ''EACCES'')) \<and>
   fst (searchNodes id (lit ''a'') \<lparr>file_text = Some [], read_error = Some (lit ''EACCES''), write_error = None\<rparr>)
     = Inl (SystemError (lit ''EACCES'')) \<and>
   fst (openNodes [lit ''A''] \<lparr>file_text = Some [], read_error = Some (lit ''EACCES''), write_error = None\<rparr>)
     = Inl (SystemError (lit ''EACCES''))"
proof -
  have absent: "fst (fs_readFile \<lparr>file_text = None, read_error = None, write_error = None\<rparr>)
                  = Inl (SystemError (lit ''ENOENT''))"
    by (simp add: fs_readFile_def)
  have denied: "fst (fs_readFile \<lparr>file_text = Some [], read_error = Some (lit ''EACCES''), write_error = None\<rparr>)
                  = Inl (SystemError (lit ''EACCES''))"
    by (simp add: fs_readFile_def)
  have differ: "lit ''EACCES'' \<noteq> lit ''ENOENT''"
    by (simp add: lit_def chr16_def)
  from read_failure_cold_start_or_propagated [OF absent, of id "lit ''a''" "[lit ''A'']"]
       read_failure_cold_start_or_propagated [OF denied, of id "lit ''a''" "[lit ''A'']"]
       absent denied differ
  show ?thesis by simp
qed

section \<open>The two queries\<close>

lemma filter_relations_ends:
  "r \<in> set (filter_relations es rs) \<longleftrightarrow>
     r \<in> set rs \<and> r_from r \<in> name ` set es \<and> r_to r \<in> name ` set es"
  by (auto simp: filter_relations_def)

lemma searchNodes_result:
  "fst (loadGraph st) = Inr graph \<Longrightarrow>
   fst (searchNodes toLowerCase query st) =
     Inr \<lparr>entities = filter (search_match toLowerCase query) (entities graph),
          relations = filter_relations (filter (search_match toLowerCase query) (entities graph))
                        (relations graph)\<rparr>"
  by (cases "loadGraph st") (simp add: searchNodes_def Let_def)

lemma openNodes_result:
  "fst (loadGraph st) = Inr graph \<Longrightarrow>
   fst (openNodes names st) =
     Inr \<lparr>entities = filter (\<lambda>e. name e \<in> set names) (entities graph),
          relations = filter_relations (filter (\<lambda>e. name e \<in> set names) (entities graph))
                        (relations graph)\<rparr>"
  by (cases "loadGraph st") (simp add: openNodes_def Let_def)

lemma searchNodes_failed:
  "fst (loadGraph st) = Inl err \<Longrightarrow> fst (searchNodes toLowerCase query st) = Inl err"
  by (cases "loadGraph st") (simp add: searchNodes_def)

lemma openNodes_failed:
  "fst (loadGraph st) = Inl err \<Longrightarrow> fst (openNodes names st) = Inl err"
  by (cases "loadGraph st") (simp add: openNodes_def)

text \<open>
  C5 (induced subgraph): in the graph that \<^verbatim>\<open>searchNodes\<close> returns for a query, and in the
  graph that \<^verbatim>\<open>openNodes\<close> returns for a list of names, the \<^verbatim>\<open>from\<close> and the \<^verbatim>\<open>to\<close> of
  every relation are names of entities of that same result; so no relation with only one end
  among the entities returned is returned.
\<close>

theorem query_results_are_induced_subgraphs:
  "(fst (searchNodes toLowerCase query st) = Inr found \<longrightarrow>
      (\<forall>r \<in> set (relations found).
          r_from r \<in> name ` set (entities found) \<and> r_to r \<in> name ` set (entities found))) \<and>
   (fst (openNodes names st) = Inr opened \<longrightarrow>
      (\<forall>r \<in> set (relations opened).
          r_from r \<in> name ` set (entities opened) \<and> r_to r \<in> name ` set (entities opened)))"
proof (cases "fst (loadGraph st)")
  case (Inl err)
  then show ?thesis
    by (simp add: searchNodes_failed openNodes_failed)
next
  case (Inr graph)
  show ?thesis
    using searchNodes_result [OF Inr, of toLowerCase query] openNodes_result [OF Inr, of names]
    by (auto simp: filter_relations_ends)
qed


lemma sample_search_person:
  "filter (search_match ascii_toLowerCase (lit ''PERSON'')) (entities sample_graph) =
     [\<lparr>name = lit ''Alice'', entityType = lit ''person'', observations = [lit ''Likes COFFEE'']\<rparr>,
      \<lparr>name = lit ''Bob'', entityType = lit ''person'', observations = []\<rparr>]"
  by (simp add: sample_graph_def search_match_def ascii_toLowerCase_def lit_def chr16_def)

theorem query_results_are_induced_subgraphs_witness:
  "fst (searchNodes ascii_toLowerCase (lit ''PERSON'') sample_store) =
     Inr \<lparr>entities =
            [\<lparr>name = lit ''Alice'', entityType = lit ''person'', observations = [lit ''Likes COFFEE'']\<rparr>,
             \<lparr>name = lit ''Bob'', entityType = lit ''person'', observations = []\<rparr>],
          relations = [\<lparr>r_from = lit ''Alice'', r_to = lit ''Bob'', relationType = lit ''knows''\<rparr>]\<rparr> \<and>
   fst (openNodes [lit ''Alice'', lit ''Acme''] sample_store) =
     Inr \<lparr>entities =
            [\<lparr>name = lit ''Alice'', entityType = lit ''person'', observations = [lit ''Likes COFFEE'']\<rparr>,
             \<lparr>name = lit ''Acme'', entityType = lit ''company'', observations = []\<rparr>],
          relations = [\<lparr>r_from = lit ''Alice'', r_to = lit ''Acme'', relationType = lit ''works at''\<rparr>]\<rparr> \<and>
   lit ''Alice'' \<in> name ` set
      [\<lparr>name = lit ''Alice'', entityType = lit ''person'', observations = [lit ''Likes COFFEE'']\<rparr>,
       \<lparr>name = lit ''Bob'', entityType = lit ''person'', observations = []\<rparr>] \<and>
   lit ''Bob'' \<in> name ` set
      [\<lparr>name = lit ''Alice'', entityType = lit ''person'', observations = [lit ''Likes COFFEE'']\<rparr>,
       \<lparr>name = lit ''Bob'', entityType = lit ''person'', observations = []\<rparr>] \<and>
   lit ''Acme'' \<in> name ` set
      [\<lparr>name = lit ''Alice'', entityType = lit ''person'', observations = [lit ''Likes COFFEE'']\<rparr>,
       \<lparr>name = lit ''Acme'', entityType = lit ''company'', observations = []\<rparr>]"
proof -
  have found: "fst (searchNodes ascii_toLowerCase (lit ''PERSON'') sample_store) =
     Inr \<lparr>entities =
            [\<lparr>name = lit ''Alice'', entityType = lit ''person'', observations = [lit ''Likes COFFEE'']\<rparr>,
             \<lparr>name = lit ''Bob'', entityType = lit ''person'', observations = []\<rparr>],
          relations = [\<lparr>r_from = lit ''Alice'', r_to = lit ''Bob'', relationType = lit ''knows''\<rparr>]\<rparr>"
    unfolding searchNodes_result [OF loadGraph_sample_store] sample_search_person
    by (simp add: sample_graph_def filter_relations_def lit_def chr16_def)
  have opened: "fst (openNodes [lit ''Alice'', lit ''Acme''] sample_store) =
     Inr \<lparr>entities =
            [\<lparr>name = lit ''Alice'', entityType = lit ''person'', observations = [lit ''Likes COFFEE'']\<rparr>,
             \<lparr>name = lit ''Acme'', entityType = lit ''company'', observations = []\<rparr>],
          relations = [\<lparr>r_from = lit ''Alice'', r_to = lit ''Acme'', relationType = lit ''works at''\<rparr>]\<rparr>"
    unfolding openNodes_result [OF loadGraph_sample_store]
    by (simp add: sample_graph_def filter_relations_def lit_def chr16_def)
  from query_results_are_induced_subgraphs [of ascii_toLowerCase "lit ''PERSON''" sample_store _
         "[lit ''Alice'', lit ''Acme'']"] found opened
  show ?thesis by simp
qed

lemma str_includes_empty: "str_includes s []"
  by (induction s) simp_all

lemma search_match_empty: "toLowerCase [] = [] \<Longrightarrow> search_match toLowerCase [] e"
  by (simp add: search_match_def str_includes_empty)

lemma readGraph_result: "fst (readGraph st) = fst (loadGraph st)"
  by (simp add: readGraph_def)

text \<open>
  C10 (the empty query): \<^verbatim>\<open>toLowerCase\<close> maps the empty string to itself, and the empty string
  is included in every string; so for every graph that loads, \<^verbatim>\<open>searchNodes("")\<close> returns all
  its entities, and of its relations those whose two ends are names of entities of the graph.
  A relation with an end that names no entity is therefore left out by \<^verbatim>\<open>searchNodes("")\<close>,
  while \<^verbatim>\<open>readGraph\<close> returns the whole graph with it.
\<close>

theorem search_empty_query_drops_dangling_relations:
  assumes "fst (loadGraph st) = Inr graph" and "toLowerCase [] = []"
  shows "\<exists>found. fst (searchNodes toLowerCase [] st) = Inr found \<and>
           entities found = entities graph \<and>
           relations found =
             filter (\<lambda>r. r_from r \<in> name ` set (entities graph) \<and> r_to r \<in> name ` set (entities graph))
               (relations graph) \<and>
           fst (readGraph st) = Inr graph \<and>
           (\<forall>r \<in> set (relations graph).
              r_from r \<notin> name ` set (entities graph) \<or> r_to r \<notin> name ` set (entities graph)
              \<longrightarrow> r \<notin> set (relations found))"
proof -
  from assms(2) have "filter (search_match toLowerCase []) (entities graph) = entities graph"
    by (simp add: search_match_empty)
  with searchNodes_result [OF assms(1), of toLowerCase "[]"] assms(1)
  show ?thesis
    by (auto simp: filter_relations_def readGraph_result)
qed

lemma ascii_toLowerCase_empty: "ascii_toLowerCase [] = []"
  by (simp add: ascii_toLowerCase_def)

theorem search_empty_query_drops_dangling_relations_witness:
  "fst (loadGraph sample_store) = Inr sample_graph \<and> ascii_toLowerCase [] = [] \<and>
   fst (searchNodes ascii_toLowerCase [] sample_store) =
     Inr \<lparr>entities = entities sample_graph,
          relations =
            [\<lparr>r_from = lit ''Alice'', r_to = lit ''Bob'', relationType = lit ''knows''\<rparr>,
             \<lparr>r_from = lit ''Alice'', r_to = lit ''Acme'', relationType = lit ''works at''\<rparr>]\<rparr> \<and>
   fst (readGraph sample_store) = Inr sample_graph \<and>
   \<lparr>r_from = lit ''Bob'', r_to = lit ''Zed'', relationType = lit ''knows''\<rparr> \<in> set (relations sample_graph)"
proof -
  have kept: "filter (\<lambda>r. r_from r \<in> name ` set (entities sample_graph) \<and>
                          r_to r \<in> name ` set (entities sample_graph)) (relations sample_graph) =
            [\<lparr>r_from = lit ''Alice'', r_to = lit ''Bob'', relationType = lit ''knows''\<rparr>,
             \<lparr>r_from = lit ''Alice'', r_to = lit ''Acme'', relationType = lit ''works at''\<rparr>]"
    by (simp add: sample_graph_def lit_def chr16_def)
  have dangling: "\<lparr>r_from = lit ''Bob'', r_to = lit ''Zed'', relationType = lit ''knows''\<rparr>
                    \<in> set (relations sample_graph)"
    by (simp add: sample_graph_def)
  from search_empty_query_drops_dangling_relations
         [of sample_store sample_graph ascii_toLowerCase,
          OF loadGraph_sample_store ascii_toLowerCase_empty]
  obtain found where "fst (searchNodes ascii_toLowerCase [] sample_store) = Inr found"
    and "entities found = entities sample_graph"
    and "relations found =
           filter (\<lambda>r. r_from r \<in> name ` set (entities sample_graph) \<and>
                       r_to r \<in> name ` set (entities sample_graph)) (relations sample_graph)"
    and "fst (readGraph sample_store) = Inr sample_graph"
    by blast
  with kept dangling loadGraph_sample_store ascii_toLowerCase_empty show ?thesis
    by simp
qed

section \<open>Deleting entities\<close>

lemma deleteEntities_result:
  assumes "fst (loadGraph st) = Inr graph"
  shows "deleteEntities entityNames st =
           saveGraph
             \<lparr>entities = filter (\<lambda>e. name e \<notin> set entityNames) (entities graph),
              relations = filter (\<lambda>r. r_from r \<notin> set entityNames \<and> r_to r \<notin> set entityNames)
                            (relations graph)\<rparr> st"
  using assms loadGraph_state [of st] by (cases graph) (simp add: deleteEntities_def)

text \<open>
  C7 (cascade on delete): when the graph loads and \<^verbatim>\<open>deleteEntities\<close> completes for a list of
  names, the graph in the file afterwards has no entity whose name is in the list and no
  relation whose \<^verbatim>\<open>from\<close> or \<^verbatim>\<open>to\<close> is in the list; its entities and relations are those of
  the loaded graph that do not touch a listed name, in their order.
\<close>

theorem deleteEntities_cascades:
  assumes "fst (loadGraph st) = Inr graph" and "fst (deleteEntities entityNames st) = Inr u"
  shows "\<exists>stored. persisted (snd (deleteEntities entityNames st)) = Inr stored \<and>
           (\<forall>e \<in> set (entities stored). name e \<notin> set entityNames) \<and>
           (\<forall>r \<in> set (relations stored). r_from r \<notin> set entityNames \<and> r_to r \<notin> set entityNames) \<and>
           entities stored = filter (\<lambda>e. name e \<notin> set entityNames) (entities graph) \<and>
           relations stored =
             filter (\<lambda>r. r_from r \<notin> set entityNames \<and> r_to r \<notin> set entityNames) (relations graph)"
proof -
  let ?kept = "\<lparr>entities = filter (\<lambda>e. name e \<notin> set entityNames) (entities graph),
               relations = filter (\<lambda>r. r_from r \<notin> set entityNames \<and> r_to r \<notin> set entityNames)
                             (relations graph)\<rparr>"
  have del: "deleteEntities entityNames st = saveGraph ?kept st"
    by (rule deleteEntities_result [OF assms(1)])
  with assms(2) have "fst (saveGraph ?kept st) = Inr u" by simp
  from saveGraph_ok [OF this] del
  have "persisted (snd (deleteEntities entityNames st)) = Inr ?kept"
    by (simp add: persisted_write)
  then show ?thesis by simp
qed

theorem deleteEntities_cascades_witness:
  "fst (loadGraph sample_store) = Inr sample_graph \<and>
   fst (deleteEntities [lit ''Bob''] sample_store) = Inr () \<and>
   persisted (snd (deleteEntities [lit ''Bob''] sample_store)) =
     Inr \<lparr>entities =
            [\<lparr>name = lit ''Alice'', entityType = lit ''person'', observations = [lit ''Likes COFFEE'']\<rparr>,
             \<lparr>name = lit ''Acme'', entityType = lit ''company'', observations = []\<rparr>],
          relations = [\<lparr>r_from = lit ''Alice'', r_to = lit ''Acme'', relationType = lit ''works at''\<rparr>]\<rparr>"
proof -
  have ok: "fst (deleteEntities [lit ''Bob''] sample_store) = Inr ()"
    unfolding deleteEntities_result [OF loadGraph_sample_store]
    by (simp add: saveGraph_result sample_store_def)
  have es: "filter (\<lambda>e. name e \<notin> set [lit ''Bob'']) (entities sample_graph) =
            [\<lparr>name = lit ''Alice'', entityType = lit ''person'', observations = [lit ''Likes COFFEE'']\<rparr>,
             \<lparr>name = lit ''Acme'', entityType = lit ''company'', observations = []\<rparr>]"
    by (simp add: sample_graph_def lit_def chr16_def)
  have rs: "filter (\<lambda>r. r_from r \<notin> set [lit ''Bob''] \<and> r_to r \<notin> set [lit ''Bob'']) (relations sample_graph) =
            [\<lparr>r_from = lit ''Alice'', r_to = lit ''Acme'', relationType = lit ''works at''\<rparr>]"
    by (simp add: sample_graph_def lit_def chr16_def)
  from deleteEntities_cascades [OF loadGraph_sample_store ok]
  obtain stored where "persisted (snd (deleteEntities [lit ''Bob''] sample_store)) = Inr stored"
    and "entities stored = filter (\<lambda>e. name e \<notin> set [lit ''Bob'']) (entities sample_graph)"
    and "relations stored =
           filter (\<lambda>r. r_from r \<notin> set [lit ''Bob''] \<and> r_to r \<notin> set [lit ''Bob'']) (relations sample_graph)"
    by blast
  with es rs ok loadGraph_sample_store show ?thesis
    by (cases stored) simp
qed

section \<open>Adding observations\<close>

lemma map_name_update_first:
  "map name (update_first P (\<lambda>e. e\<lparr>observations := f e\<rparr>) es) = map name es"
  by (induction es) simp_all

lemma names_update_first:
  "name ` set (update_first P (\<lambda>e. e\<lparr>observations := f e\<rparr>) es) = name ` set es"
proof -
  have "set (map name (update_first P (\<lambda>e. e\<lparr>observations := f e\<rparr>) es)) = set (map name es)"
    by (simp only: map_name_update_first)
  then show ?thesis by (simp only: set_map)
qed

lemma find_name_None: "find (\<lambda>e. name e = n) es = None \<longleftrightarrow> n \<notin> name ` set es"
  by (auto simp: find_None_iff)

lemma add_items_missing:
  "find (\<lambda>item. entityName item \<notin> name ` set es) batch = Some missing \<Longrightarrow>
   add_items batch es = Inl (EntityNotFound (entityName missing))"
proof (induction batch arbitrary: es)
  case Nil
  then show ?case by simp
next
  case (Cons obs rest)
  show ?case
  proof (cases "entityName obs \<in> name ` set es")
    case False
    with Cons.prems have "missing = obs" by simp
    moreover from False have "find (\<lambda>e. name e = entityName obs) es = None"
      by (simp add: find_name_None)
    ultimately show ?thesis by simp
  next
    case True
    then obtain entity where found: "find (\<lambda>e. name e = entityName obs) es = Some entity"
      using find_name_None [of "entityName obs" es] by (cases "find (\<lambda>e. name e = entityName obs) es") auto
    define es' where "es' = update_first (\<lambda>e. name e = entityName obs)
       (\<lambda>e. e\<lparr>observations := observations e @
                 filter (\<lambda>content. content \<notin> set (observations entity)) (contents obs)\<rparr>) es"
    have "name ` set es' = name ` set es"
      unfolding es'_def by (rule names_update_first)
    with Cons.prems True have "find (\<lambda>item. entityName item \<notin> name ` set es') rest = Some missing"
      by simp
    from Cons.IH [OF this] found show ?thesis
      by (simp add: es'_def Let_def)
  qed
qed

lemma addObservations_failed:
  assumes "fst (loadGraph st) = Inr graph" and "add_items batch (entities graph) = Inl err"
  shows "addObservations batch st = (Inl err, st)"
  using assms loadGraph_state [of st] by (simp add: addObservations_def)

text \<open>
  C2 (no partial write): when the graph loads and some item of the batch names an entity that
  is not in it, \<^verbatim>\<open>addObservations\<close> fails with the not-found error for an item of the batch
  whose entity is missing, and the state of the file after the call is the state before it:
  \<^verbatim>\<open>saveGraph\<close> is not reached, so nothing that was pushed in memory for an earlier item is
  written.
\<close>

theorem addObservations_missing_entity_writes_nothing:
  assumes "fst (loadGraph st) = Inr graph"
    and "\<exists>item \<in> set batch. entityName item \<notin> name ` set (entities graph)"
  shows "\<exists>missing \<in> set batch.
           entityName missing \<notin> name ` set (entities graph) \<and>
           fst (addObservations batch st) = Inl (EntityNotFound (entityName missing)) \<and>
           snd (addObservations batch st) = st \<and>
           persisted (snd (addObservations batch st)) = persisted st"
proof -
  from assms(2) obtain missing
    where first: "find (\<lambda>item. entityName item \<notin> name ` set (entities graph)) batch = Some missing"
    by (cases "find (\<lambda>item. entityName item \<notin> name ` set (entities graph)) batch")
       (auto simp: find_None_iff)
  then have "missing \<in> set batch" and "entityName missing \<notin> name ` set (entities graph)"
    by (auto simp: find_Some_iff)
  moreover from addObservations_failed [OF assms(1) add_items_missing [OF first]]
  have "addObservations batch st = (Inl (EntityNotFound (entityName missing)), st)" .
  ultimately show ?thesis by auto
qed


theorem addObservations_missing_entity_writes_nothing_witness:
  "fst (loadGraph sample_store) = Inr sample_graph \<and>
   lit ''Zed'' \<notin> name ` set (entities sample_graph) \<and>
   fst (addObservations
          [\<lparr>entityName = lit ''Alice'', contents = [lit ''x'']\<rparr>,
           \<lparr>entityName = lit ''Zed'', contents = [lit ''y'']\<rparr>] sample_store)
     = Inl (EntityNotFound (lit ''Zed'')) \<and>
   snd (addObservations
          [\<lparr>entityName = lit ''Alice'', contents = [lit ''x'']\<rparr>,
           \<lparr>entityName = lit ''Zed'', contents = [lit ''y'']\<rparr>] sample_store)
     = sample_store \<and>
   persisted (snd (addObservations
          [\<lparr>entityName = lit ''Alice'', contents = [lit ''x'']\<rparr>,
           \<lparr>entityName = lit ''Zed'', contents = [lit ''y'']\<rparr>] sample_store))
     = Inr sample_graph"
proof -
  let ?batch = "[\<lparr>entityName = lit ''Alice'', contents = [lit ''x'']\<rparr>,
                 \<lparr>entityName = lit ''Zed'', contents = [lit ''y'']\<rparr>]"
  have zed: "lit ''Zed'' \<notin> name ` set (entities sample_graph)"
    by (simp add: sample_graph_def lit_def chr16_def)
  have alice: "lit ''Alice'' \<in> name ` set (entities sample_graph)"
    by (simp add: sample_graph_def)
  from zed have "\<exists>item \<in> set ?batch. entityName item \<notin> name ` set (entities sample_graph)"
    by simp
  from addObservations_missing_entity_writes_nothing [OF loadGraph_sample_store this]
  obtain missing where "missing \<in> set ?batch"
    and "entityName missing \<notin> name ` set (entities sample_graph)"
    and res: "fst (addObservations ?batch sample_store) = Inl (EntityNotFound (entityName missing))"
             "snd (addObservations ?batch sample_store) = sample_store"
             "persisted (snd (addObservations ?batch sample_store)) = persisted sample_store"
    by blast
  with alice have "entityName missing = lit ''Zed''" by auto
  with res zed loadGraph_sample_store persisted_sample_store show ?thesis by simp
qed

subsection \<open>Duplicates among the observations\<close>

lemma find_update_first:
  assumes "\<And>x. Q (f x) = Q x" and "find Q (update_first P f es) = Some e1"
  shows "\<exists>e0. find Q es = Some e0 \<and> (e1 = e0 \<or> e1 = f e0)"
  using assms(2)
proof (induction es)
  case Nil
  then show ?case by simp
next
  case (Cons x xs)
  then show ?case
    using assms(1) by (auto split: if_splits)
qed

lemma set_update_first:
  "find P es = Some e \<Longrightarrow> set (update_first P f es) \<subseteq> insert (f e) (set es)"
  by (induction es) (auto split: if_splits)

lemma distinct_filter_superset:
  assumes "distinct (filter (\<lambda>c. c \<notin> A) cs)" and "A \<subseteq> B"
  shows "distinct (filter (\<lambda>c. c \<notin> B) cs)"
proof -
  from assms(2) have "filter (\<lambda>c. c \<notin> B) cs = filter (\<lambda>c. c \<notin> B) (filter (\<lambda>c. c \<notin> A) cs)"
    by (auto intro: filter_cong)
  with assms(1) show ?thesis
    by (simp only: distinct_filter)
qed

lemma add_items_distinct:
  assumes "add_items batch es = Inr (results, es')"
    and "\<forall>e \<in> set es. distinct (observations e)"
    and "\<forall>item \<in> set batch. \<forall>e. find (\<lambda>e. name e = entityName item) es = Some e \<longrightarrow>
           distinct (filter (\<lambda>content. content \<notin> set (observations e)) (contents item))"
  shows "\<forall>e \<in> set es'. distinct (observations e)"
  using assms
proof (induction batch arbitrary: es results)
  case Nil
  then show ?case by simp
next
  case (Cons obs rest)
  from Cons.prems(1) obtain entity where found: "find (\<lambda>e. name e = entityName obs) es = Some entity"
    by (cases "find (\<lambda>e. name e = entityName obs) es") auto
  define new where "new = filter (\<lambda>content. content \<notin> set (observations entity)) (contents obs)"
  define f where "f = (\<lambda>e :: Entity. e\<lparr>observations := observations e @ new\<rparr>)"
  define es1 where "es1 = update_first (\<lambda>e. name e = entityName obs) f es"
  from Cons.prems(1) found obtain results1 where rest: "add_items rest es1 = Inr (results1, es')"
    by (auto simp: es1_def f_def new_def Let_def split: sum.splits)
  from found have "entity \<in> set es"
    by (auto simp: find_Some_iff)
  with Cons.prems(2) have "distinct (observations entity)" by simp
  moreover from Cons.prems(3) found have "distinct new"
    by (simp add: new_def)
  ultimately have "distinct (observations (f entity))"
    by (auto simp: f_def new_def)
  with set_update_first [OF found, of f] Cons.prems(2)
  have inv: "\<forall>e \<in> set es1. distinct (observations e)"
    by (auto simp: es1_def)
  have new_ok: "\<forall>item \<in> set rest. \<forall>e. find (\<lambda>e. name e = entityName item) es1 = Some e \<longrightarrow>
           distinct (filter (\<lambda>content. content \<notin> set (observations e)) (contents item))"
  proof (intro ballI allI impI)
    fix item e1
    assume item: "item \<in> set rest" and e1: "find (\<lambda>e. name e = entityName item) es1 = Some e1"
    have "\<And>x. (name (f x) = entityName item) = (name x = entityName item)"
      by (simp add: f_def)
    from find_update_first [of "\<lambda>e. name e = entityName item" f, OF this e1 [unfolded es1_def]]
    obtain e0 where e0: "find (\<lambda>e. name e = entityName item) es = Some e0"
      and "e1 = e0 \<or> e1 = f e0" by blast
    then have sub: "set (observations e0) \<subseteq> set (observations e1)"
      by (auto simp: f_def)
    from Cons.prems(3) item e0
    have "distinct (filter (\<lambda>content. content \<notin> set (observations e0)) (contents item))"
      by simp
    from distinct_filter_superset [OF this sub]
    show "distinct (filter (\<lambda>content. content \<notin> set (observations e1)) (contents item))" .
  qed
  from Cons.IH [OF rest inv new_ok] show ?case .
qed

lemma addObservations_ok:
  assumes "fst (loadGraph st) = Inr graph" and "fst (addObservations batch st) = Inr results"
  shows "\<exists>es'. add_items batch (entities graph) = Inr (results, es') \<and>
           snd (addObservations batch st) = st\<lparr>file_text := Some (encode (graph\<lparr>entities := es'\<rparr>))\<rparr>"
  using assms loadGraph_state [of st]
  by (auto simp: addObservations_def saveGraph_result split: sum.splits option.splits)

text \<open>
  C3, as the code has it: when the graph loads with no duplicate in any entity's observations,
  \<^verbatim>\<open>addObservations\<close> completes, and no item of the batch lists twice a string that its
  entity (the first entity of that name) does not carry in the loaded graph, then no entity of
  the graph in the file afterwards has a duplicate observation. A string that the entity
  already carries may be listed, once or several times, and the same new string may come in
  two items: those are skipped. Only the strings of one \<^verbatim>\<open>contents\<close> array are not compared
  with each other.
\<close>

theorem addObservations_keeps_observations_distinct:
  assumes "fst (loadGraph st) = Inr graph"
    and "\<forall>e \<in> set (entities graph). distinct (observations e)"
    and "fst (addObservations batch st) = Inr results"
    and "\<forall>item \<in> set batch. \<forall>e. find (\<lambda>e. name e = entityName item) (entities graph) = Some e \<longrightarrow>
           distinct (filter (\<lambda>content. content \<notin> set (observations e)) (contents item))"
  shows "\<exists>stored. persisted (snd (addObservations batch st)) = Inr stored \<and>
           (\<forall>e \<in> set (entities stored). distinct (observations e))"
proof -
  from addObservations_ok [OF assms(1) assms(3)]
  obtain es' where items: "add_items batch (entities graph) = Inr (results, es')"
    and "snd (addObservations batch st) = st\<lparr>file_text := Some (encode (graph\<lparr>entities := es'\<rparr>))\<rparr>"
    by blast
  then have "persisted (snd (addObservations batch st)) = Inr (graph\<lparr>entities := es'\<rparr>)"
    by (simp add: persisted_write)
  moreover from add_items_distinct [OF items assms(2) assms(4)]
  have "\<forall>e \<in> set (entities (graph\<lparr>entities := es'\<rparr>)). distinct (observations e)"
    by simp
  ultimately show ?thesis by blast
qed


lemma addObservations_result:
  assumes "fst (loadGraph st) = Inr graph"
    and "add_items batch (entities graph) = Inr (results, es')"
    and "write_error st = None"
  shows "addObservations batch st =
           (Inr results, st\<lparr>file_text := Some (encode (graph\<lparr>entities := es'\<rparr>))\<rparr>)"
  using assms loadGraph_state [of st] by (simp add: addObservations_def saveGraph_result)

text \<open>
  The claim as it is written fails on a \<^verbatim>\<open>contents\<close> array with the same new string twice:
  both are pushed and written.
\<close>

theorem addObservations_duplicate_in_contents_counterexample:
  "fst (loadGraph sample_store) = Inr sample_graph \<and>
   map observations (entities sample_graph) = [[lit ''Likes COFFEE''], [], []] \<and>
   fst (addObservations [\<lparr>entityName = lit ''Alice'', contents = [lit ''tea'', lit ''tea'']\<rparr>] sample_store)
     = Inr [(lit ''Alice'', [lit ''tea'', lit ''tea''])] \<and>
   persisted (snd (addObservations
        [\<lparr>entityName = lit ''Alice'', contents = [lit ''tea'', lit ''tea'']\<rparr>] sample_store))
     = Inr (sample_graph\<lparr>entities :=
              [\<lparr>name = lit ''Alice'', entityType = lit ''person'',
                observations = [lit ''Likes COFFEE'', lit ''tea'', lit ''tea'']\<rparr>,
               \<lparr>name = lit ''Bob'', entityType = lit ''person'', observations = []\<rparr>,
               \<lparr>name = lit ''Acme'', entityType = lit ''company'', observations = []\<rparr>]\<rparr>) \<and>
   \<not> distinct [lit ''Likes COFFEE'', lit ''tea'', lit ''tea'']"
proof -
  let ?batch = "[\<lparr>entityName = lit ''Alice'', contents = [lit ''tea'', lit ''tea'']\<rparr>]"
  let ?es' = "[\<lparr>name = lit ''Alice'', entityType = lit ''person'',
                observations = [lit ''Likes COFFEE'', lit ''tea'', lit ''tea'']\<rparr>,
               \<lparr>name = lit ''Bob'', entityType = lit ''person'', observations = []\<rparr>,
               \<lparr>name = lit ''Acme'', entityType = lit ''company'', observations = []\<rparr>]"
  have items: "add_items ?batch (entities sample_graph) = Inr ([(lit ''Alice'', [lit ''tea'', lit ''tea''])], ?es')"
    by (simp add: sample_graph_def lit_def chr16_def Let_def)
  have obs: "map observations (entities sample_graph) = [[lit ''Likes COFFEE''], [], []]"
    by (simp add: sample_graph_def)
  show ?thesis
    unfolding addObservations_result [OF loadGraph_sample_store items write_error_sample_store]
    using loadGraph_sample_store obs
    by (simp add: persisted_write)
qed

theorem addObservations_keeps_observations_distinct_witness:
  "fst (loadGraph sample_store) = Inr sample_graph \<and>
   map observations (entities sample_graph) = [[lit ''Likes COFFEE''], [], []] \<and>
   fst (addObservations
          [\<lparr>entityName = lit ''Alice'', contents = [lit ''Likes COFFEE'', lit ''tea'', lit ''Likes COFFEE'']\<rparr>,
           \<lparr>entityName = lit ''Alice'', contents = [lit ''tea'']\<rparr>,
           \<lparr>entityName = lit ''Bob'', contents = [lit ''x'']\<rparr>] sample_store)
     = Inr [(lit ''Alice'', [lit ''tea'']), (lit ''Alice'', []), (lit ''Bob'', [lit ''x''])] \<and>
   persisted (snd (addObservations
          [\<lparr>entityName = lit ''Alice'', contents = [lit ''Likes COFFEE'', lit ''tea'', lit ''Likes COFFEE'']\<rparr>,
           \<lparr>entityName = lit ''Alice'', contents = [lit ''tea'']\<rparr>,
           \<lparr>entityName = lit ''Bob'', contents = [lit ''x'']\<rparr>] sample_store))
     = Inr (sample_graph\<lparr>entities :=
              [\<lparr>name = lit ''Alice'', entityType = lit ''person'',
                observations = [lit ''Likes COFFEE'', lit ''tea'']\<rparr>,
               \<lparr>name = lit ''Bob'', entityType = lit ''person'', observations = [lit ''x'']\<rparr>,
               \<lparr>name = lit ''Acme'', entityType = lit ''company'', observations = []\<rparr>]\<rparr>) \<and>
   distinct [lit ''Likes COFFEE'', lit ''tea''] \<and> distinct [lit ''x'']"
proof -
  let ?batch = "[\<lparr>entityName = lit ''Alice'', contents = [lit ''Likes COFFEE'', lit ''tea'', lit ''Likes COFFEE'']\<rparr>,
                 \<lparr>entityName = lit ''Alice'', contents = [lit ''tea'']\<rparr>,
                 \<lparr>entityName = lit ''Bob'', contents = [lit ''x'']\<rparr>]"
  let ?es' = "[\<lparr>name = lit ''Alice'', entityType = lit ''person'',
                observations = [lit ''Likes COFFEE'', lit ''tea'']\<rparr>,
               \<lparr>name = lit ''Bob'', entityType = lit ''person'', observations = [lit ''x'']\<rparr>,
               \<lparr>name = lit ''Acme'', entityType = lit ''company'', observations = []\<rparr>]"
  let ?results = "[(lit ''Alice'', [lit ''tea'']), (lit ''Alice'', []), (lit ''Bob'', [lit ''x''])]"
  have items: "add_items ?batch (entities sample_graph) = Inr (?results, ?es')"
    by (simp add: sample_graph_def lit_def chr16_def Let_def)
  have obs: "map observations (entities sample_graph) = [[lit ''Likes COFFEE''], [], []]"
    by (simp add: sample_graph_def)
  have before: "\<forall>e \<in> set (entities sample_graph). distinct (observations e)"
    by (simp add: sample_graph_def)
  have new: "\<forall>item \<in> set ?batch. \<forall>e. find (\<lambda>e. name e = entityName item) (entities sample_graph) = Some e \<longrightarrow>
           distinct (filter (\<lambda>content. content \<notin> set (observations e)) (contents item))"
    by (auto simp: sample_graph_def lit_def chr16_def)
  note run = addObservations_result [OF loadGraph_sample_store items write_error_sample_store]
  then have ok: "fst (addObservations ?batch sample_store) = Inr ?results" by simp
  have written: "persisted (snd (addObservations ?batch sample_store)) = Inr (sample_graph\<lparr>entities := ?es'\<rparr>)"
    unfolding run by (simp add: persisted_write)
  from addObservations_keeps_observations_distinct [OF loadGraph_sample_store before ok new]
  obtain stored where stored: "persisted (snd (addObservations ?batch sample_store)) = Inr stored"
    and all: "\<forall>e \<in> set (entities stored). distinct (observations e)"
    by blast
  from stored written have "stored = sample_graph\<lparr>entities := ?es'\<rparr>" by simp
  with all have "\<forall>e \<in> set ?es'. distinct (observations e)" by simp
  then have "distinct [lit ''Likes COFFEE'', lit ''tea''] \<and> distinct [lit ''x'']"
    by simp
  with written ok loadGraph_sample_store obs show ?thesis
    by simp
qed

section \<open>Creating entities\<close>

lemma list_ex_name: "list_ex (\<lambda>existing. name existing = n) es \<longleftrightarrow> n \<in> name ` set es"
  by (auto simp: list_ex_iff)

lemma createEntities_result:
  assumes "fst (loadGraph st) = Inr graph"
  shows "createEntities es st =
           (case saveGraph (graph\<lparr>entities := entities graph @
                                filter (\<lambda>e. name e \<notin> name ` set (entities graph)) es\<rparr>) st of
              (Inl err, st2) \<Rightarrow> (Inl err, st2)
            | (Inr u, st2) \<Rightarrow> (Inr (filter (\<lambda>e. name e \<notin> name ` set (entities graph)) es), st2))"
  using assms loadGraph_state [of st] by (simp add: createEntities_def list_ex_name)

lemma createEntities_ok:
  assumes "fst (loadGraph st) = Inr graph" and "fst (createEntities es st) = Inr added"
  shows "added = filter (\<lambda>e. name e \<notin> name ` set (entities graph)) es"
    and "snd (createEntities es st) = st\<lparr>file_text := Some (encode (graph\<lparr>entities := entities graph @ added\<rparr>))\<rparr>"
  using assms(2) unfolding createEntities_result [OF assms(1)] saveGraph_result
  by (auto split: option.splits)

lemma distinct_names_append:
  "distinct (map name es) \<Longrightarrow>
   distinct (map name (es @ filter (\<lambda>e. name e \<notin> name ` set es) new)) \<longleftrightarrow>
     distinct (map name (filter (\<lambda>e. name e \<notin> name ` set es) new))"
  by (auto intro: rev_image_eqI)

text \<open>
  C1, as the code has it: when the graph loads with pairwise distinct entity names and
  \<^verbatim>\<open>createEntities\<close> completes, the graph in the file afterwards is the loaded graph followed
  by the candidates whose name is not in the loaded graph, and its entity names are pairwise
  distinct exactly when those appended candidates have pairwise distinct names. A candidate
  is compared with the loaded graph only, never with the other candidates of the batch.
\<close>

theorem createEntities_names_distinct_iff_new_names_distinct:
  assumes "fst (loadGraph st) = Inr graph"
    and "distinct (map name (entities graph))"
    and "fst (createEntities es st) = Inr added"
  shows "\<exists>stored. persisted (snd (createEntities es st)) = Inr stored \<and>
           entities stored = entities graph @ added \<and>
           added = filter (\<lambda>e. name e \<notin> name ` set (entities graph)) es \<and>
           (distinct (map name (entities stored)) \<longleftrightarrow> distinct (map name added))"
proof -
  note ok = createEntities_ok [OF assms(1) assms(3)]
  from ok(2) have "persisted (snd (createEntities es st)) = Inr (graph\<lparr>entities := entities graph @ added\<rparr>)"
    by (simp add: persisted_write)
  moreover from distinct_names_append [OF assms(2), of es] ok(1)
  have "distinct (map name (entities graph @ added)) \<longleftrightarrow> distinct (map name added)"
    by simp
  ultimately show ?thesis using ok(1) by simp
qed

text \<open>
  The claim as it is written fails on a batch with two new candidates of the same name: from
  the state with no file, both are appended and written.
\<close>

theorem createEntities_duplicate_in_batch_counterexample:
  "fst (loadGraph absent_store) = Inr \<lparr>entities = [], relations = []\<rparr> \<and>
   distinct (map name (entities \<lparr>entities = [], relations = []\<rparr>)) \<and>
   fst (createEntities
          [\<lparr>name = lit ''A'', entityType = lit ''person'', observations = []\<rparr>,
           \<lparr>name = lit ''A'', entityType = lit ''place'', observations = []\<rparr>] absent_store)
     = Inr [\<lparr>name = lit ''A'', entityType = lit ''person'', observations = []\<rparr>,
            \<lparr>name = lit ''A'', entityType = lit ''place'', observations = []\<rparr>] \<and>
   persisted (snd (createEntities
          [\<lparr>name = lit ''A'', entityType = lit ''person'', observations = []\<rparr>,
           \<lparr>name = lit ''A'', entityType = lit ''place'', observations = []\<rparr>] absent_store))
     = Inr \<lparr>entities =
              [\<lparr>name = lit ''A'', entityType = lit ''person'', observations = []\<rparr>,
               \<lparr>name = lit ''A'', entityType = lit ''place'', observations = []\<rparr>],
            relations = []\<rparr> \<and>
   \<not> distinct (map name
          [\<lparr>name = lit ''A'', entityType = lit ''person'', observations = []\<rparr>,
           \<lparr>name = lit ''A'', entityType = lit ''place'', observations = []\<rparr>])"
proof -
  let ?batch = "[\<lparr>name = lit ''A'', entityType = lit ''person'', observations = []\<rparr>,
                 \<lparr>name = lit ''A'', entityType = lit ''place'', observations = []\<rparr>]"
  have load: "fst (loadGraph absent_store) = Inr empty_graph"
    by (rule loadGraph_absent_store)
  have run: "createEntities ?batch absent_store =
               (Inr ?batch, absent_store\<lparr>file_text := Some (encode (empty_graph\<lparr>entities := ?batch\<rparr>))\<rparr>)"
    unfolding createEntities_result [OF load] saveGraph_result
    by (simp add: empty_graph_def absent_store_def)
  show ?thesis
    unfolding run using load
    by (simp add: persisted_write empty_graph_def)
qed

theorem createEntities_names_distinct_iff_new_names_distinct_witness:
  "fst (loadGraph sample_store) = Inr sample_graph \<and>
   distinct (map name (entities sample_graph)) \<and>
   fst (createEntities
          [\<lparr>name = lit ''Bob'', entityType = lit ''robot'', observations = []\<rparr>,
           \<lparr>name = lit ''Carol'', entityType = lit ''person'', observations = []\<rparr>] sample_store)
     = Inr [\<lparr>name = lit ''Carol'', entityType = lit ''person'', observations = []\<rparr>] \<and>
   persisted (snd (createEntities
          [\<lparr>name = lit ''Bob'', entityType = lit ''robot'', observations = []\<rparr>,
           \<lparr>name = lit ''Carol'', entityType = lit ''person'', observations = []\<rparr>] sample_store))
     = Inr (sample_graph\<lparr>entities := entities sample_graph @
              [\<lparr>name = lit ''Carol'', entityType = lit ''person'', observations = []\<rparr>]\<rparr>) \<and>
   distinct (map name (entities sample_graph @
              [\<lparr>name = lit ''Carol'', entityType = lit ''person'', observations = []\<rparr>]))"
proof -
  let ?batch = "[\<lparr>name = lit ''Bob'', entityType = lit ''robot'', observations = []\<rparr>,
                 \<lparr>name = lit ''Carol'', entityType = lit ''person'', observations = []\<rparr>]"
  let ?carol = "\<lparr>name = lit ''Carol'', entityType = lit ''person'', observations = []\<rparr>"
  have dist: "distinct (map name (entities sample_graph))"
    by (simp add: sample_graph_def lit_def chr16_def)
  have new: "filter (\<lambda>e. name e \<notin> name ` set (entities sample_graph)) ?batch = [?carol]"
    by (simp add: sample_graph_def lit_def chr16_def)
  have run: "createEntities ?batch sample_store =
               (Inr [?carol],
                sample_store\<lparr>file_text := Some (encode (sample_graph\<lparr>entities := entities sample_graph @ [?carol]\<rparr>))\<rparr>)"
    unfolding createEntities_result [OF loadGraph_sample_store] saveGraph_result new
    by (simp add: sample_store_def)
  then have ok: "fst (createEntities ?batch sample_store) = Inr [?carol]" by simp
  from createEntities_names_distinct_iff_new_names_distinct [OF loadGraph_sample_store dist ok]
  obtain stored where "persisted (snd (createEntities ?batch sample_store)) = Inr stored"
    and "entities stored = entities sample_graph @ [?carol]"
    and "distinct (map name (entities stored)) \<longleftrightarrow> distinct (map name [?carol])"
    by blast
  then have "distinct (map name (entities sample_graph @ [?carol]))" by simp
  with run dist loadGraph_sample_store show ?thesis
    by (simp add: persisted_write)
qed

section \<open>Creating relations\<close>

lemma list_ex_relation_key:
  "list_ex (\<lambda>existing. r_from existing = r_from r \<and> r_to existing = r_to r \<and>
                        relationType existing = relationType r) rs
     \<longleftrightarrow> relation_key r \<in> relation_key ` set rs"
proof
  assume "list_ex (\<lambda>existing. r_from existing = r_from r \<and> r_to existing = r_to r \<and>
                        relationType existing = relationType r) rs"
  then obtain x where x: "x \<in> set rs" and "r_from x = r_from r" "r_to x = r_to r"
      "relationType x = relationType r"
    by (auto simp: list_ex_iff)
  then have "relation_key r = relation_key x" by (simp add: relation_key_def)
  with x show "relation_key r \<in> relation_key ` set rs" by blast
next
  assume "relation_key r \<in> relation_key ` set rs"
  then obtain x where "x \<in> set rs" and "relation_key r = relation_key x" by blast
  then show "list_ex (\<lambda>existing. r_from existing = r_from r \<and> r_to existing = r_to r \<and>
                        relationType existing = relationType r) rs"
    by (auto simp: list_ex_iff relation_key_def)
qed

lemma createRelations_result:
  assumes "fst (loadGraph st) = Inr graph"
  shows "createRelations rs st =
           (case saveGraph (graph\<lparr>relations := relations graph @
                                filter (\<lambda>r. relation_key r \<notin> relation_key ` set (relations graph)) rs\<rparr>) st of
              (Inl err, st2) \<Rightarrow> (Inl err, st2)
            | (Inr u, st2) \<Rightarrow>
                (Inr (filter (\<lambda>r. relation_key r \<notin> relation_key ` set (relations graph)) rs), st2))"
  using assms loadGraph_state [of st] by (simp add: createRelations_def list_ex_relation_key)

lemma createRelations_ok:
  assumes "fst (loadGraph st) = Inr graph" and "fst (createRelations rs st) = Inr added"
  shows "added = filter (\<lambda>r. relation_key r \<notin> relation_key ` set (relations graph)) rs"
    and "snd (createRelations rs st) = st\<lparr>file_text := Some (encode (graph\<lparr>relations := relations graph @ added\<rparr>))\<rparr>"
  using assms(2) unfolding createRelations_result [OF assms(1)] saveGraph_result
  by (auto split: option.splits)

lemma distinct_keys_append:
  "distinct (map relation_key rs) \<Longrightarrow>
   distinct (map relation_key (rs @ filter (\<lambda>r. relation_key r \<notin> relation_key ` set rs) new)) \<longleftrightarrow>
     distinct (map relation_key (filter (\<lambda>r. relation_key r \<notin> relation_key ` set rs) new))"
  by (auto intro: rev_image_eqI)

text \<open>
  C4, as the code has it: when the graph loads with no two relations of the same triple
  (from, to, relationType) and \<^verbatim>\<open>createRelations\<close> completes, the graph in the file
  afterwards is the loaded graph followed by the candidates whose triple is not in the loaded
  graph, and no two of its relations have the same triple exactly when no two of those
  appended candidates have. A candidate is compared with the loaded graph only.
\<close>

theorem createRelations_triples_distinct_iff_new_triples_distinct:
  assumes "fst (loadGraph st) = Inr graph"
    and "distinct (map relation_key (relations graph))"
    and "fst (createRelations rs st) = Inr added"
  shows "\<exists>stored. persisted (snd (createRelations rs st)) = Inr stored \<and>
           relations stored = relations graph @ added \<and>
           added = filter (\<lambda>r. relation_key r \<notin> relation_key ` set (relations graph)) rs \<and>
           (distinct (map relation_key (relations stored)) \<longleftrightarrow> distinct (map relation_key added))"
proof -
  note ok = createRelations_ok [OF assms(1) assms(3)]
  from ok(2) have "persisted (snd (createRelations rs st)) = Inr (graph\<lparr>relations := relations graph @ added\<rparr>)"
    by (simp add: persisted_write)
  moreover from distinct_keys_append [OF assms(2), of rs] ok(1)
  have "distinct (map relation_key (relations graph @ added)) \<longleftrightarrow> distinct (map relation_key added)"
    by simp
  ultimately show ?thesis using ok(1) by simp
qed

text \<open>
  The claim as it is written fails on a batch with the same new triple twice: from the state
  with no file, both are appended and written.
\<close>

theorem createRelations_duplicate_in_batch_counterexample:
  "fst (loadGraph absent_store) = Inr \<lparr>entities = [], relations = []\<rparr> \<and>
   distinct (map relation_key (relations \<lparr>entities = [], relations = []\<rparr>)) \<and>
   fst (createRelations
          [\<lparr>r_from = lit ''A'', r_to = lit ''B'', relationType = lit ''knows''\<rparr>,
           \<lparr>r_from = lit ''A'', r_to = lit ''B'', relationType = lit ''knows''\<rparr>] absent_store)
     = Inr [\<lparr>r_from = lit ''A'', r_to = lit ''B'', relationType = lit ''knows''\<rparr>,
            \<lparr>r_from = lit ''A'', r_to = lit ''B'', relationType = lit ''knows''\<rparr>] \<and>
   persisted (snd (createRelations
          [\<lparr>r_from = lit ''A'', r_to = lit ''B'', relationType = lit ''knows''\<rparr>,
           \<lparr>r_from = lit ''A'', r_to = lit ''B'', relationType = lit ''knows''\<rparr>] absent_store))
     = Inr \<lparr>entities = [],
            relations =
              [\<lparr>r_from = lit ''A'', r_to = lit ''B'', relationType = lit ''knows''\<rparr>,
               \<lparr>r_from = lit ''A'', r_to = lit ''B'', relationType = lit ''knows''\<rparr>]\<rparr> \<and>
   \<not> distinct (map relation_key
          [\<lparr>r_from = lit ''A'', r_to = lit ''B'', relationType = lit ''knows''\<rparr>,
           \<lparr>r_from = lit ''A'', r_to = lit ''B'', relationType = lit ''knows''\<rparr>])"
proof -
  let ?batch = "[\<lparr>r_from = lit ''A'', r_to = lit ''B'', relationType = lit ''knows''\<rparr>,
                 \<lparr>r_from = lit ''A'', r_to = lit ''B'', relationType = lit ''knows''\<rparr>]"
  have load: "fst (loadGraph absent_store) = Inr empty_graph"
    by (rule loadGraph_absent_store)
  have run: "createRelations ?batch absent_store =
               (Inr ?batch, absent_store\<lparr>file_text := Some (encode (empty_graph\<lparr>relations := ?batch\<rparr>))\<rparr>)"
    unfolding createRelations_result [OF load] saveGraph_result
    by (simp add: empty_graph_def absent_store_def)
  show ?thesis
    unfolding run using load
    by (simp add: persisted_write empty_graph_def)
qed

theorem createRelations_triples_distinct_iff_new_triples_distinct_witness:
  "fst (loadGraph sample_store) = Inr sample_graph \<and>
   distinct (map relation_key (relations sample_graph)) \<and>
   fst (createRelations
          [\<lparr>r_from = lit ''Alice'', r_to = lit ''Bob'', relationType = lit ''knows''\<rparr>,
           \<lparr>r_from = lit ''Bob'', r_to = lit ''Alice'', relationType = lit ''knows''\<rparr>] sample_store)
     = Inr [\<lparr>r_from = lit ''Bob'', r_to = lit ''Alice'', relationType = lit ''knows''\<rparr>] \<and>
   persisted (snd (createRelations
          [\<lparr>r_from = lit ''Alice'', r_to = lit ''Bob'', relationType = lit ''knows''\<rparr>,
           \<lparr>r_from = lit ''Bob'', r_to = lit ''Alice'', relationType = lit ''knows''\<rparr>] sample_store))
     = Inr (sample_graph\<lparr>relations := relations sample_graph @
              [\<lparr>r_from = lit ''Bob'', r_to = lit ''Alice'', relationType = lit ''knows''\<rparr>]\<rparr>) \<and>
   distinct (map relation_key (relations sample_graph @
              [\<lparr>r_from = lit ''Bob'', r_to = lit ''Alice'', relationType = lit ''knows''\<rparr>]))"
proof -
  let ?batch = "[\<lparr>r_from = lit ''Alice'', r_to = lit ''Bob'', relationType = lit ''knows''\<rparr>,
                 \<lparr>r_from = lit ''Bob'', r_to = lit ''Alice'', relationType = lit ''knows''\<rparr>]"
  let ?reverse = "\<lparr>r_from = lit ''Bob'', r_to = lit ''Alice'', relationType = lit ''knows''\<rparr>"
  have dist: "distinct (map relation_key (relations sample_graph))"
    by (simp add: sample_graph_def relation_key_def lit_def chr16_def)
  have new: "filter (\<lambda>r. relation_key r \<notin> relation_key ` set (relations sample_graph)) ?batch = [?reverse]"
    by (simp add: sample_graph_def relation_key_def lit_def chr16_def)
  have run: "createRelations ?batch sample_store =
               (Inr [?reverse],
                sample_store\<lparr>file_text := Some (encode (sample_graph\<lparr>relations := relations sample_graph @ [?reverse]\<rparr>))\<rparr>)"
    unfolding createRelations_result [OF loadGraph_sample_store] saveGraph_result new
    by (simp add: sample_store_def)
  then have ok: "fst (createRelations ?batch sample_store) = Inr [?reverse]" by simp
  from createRelations_triples_distinct_iff_new_triples_distinct [OF loadGraph_sample_store dist ok]
  obtain stored where "persisted (snd (createRelations ?batch sample_store)) = Inr stored"
    and "relations stored = relations sample_graph @ [?reverse]"
    and "distinct (map relation_key (relations stored)) \<longleftrightarrow> distinct (map relation_key [?reverse])"
    by blast
  then have "distinct (map relation_key (relations sample_graph @ [?reverse]))" by simp
  with run dist loadGraph_sample_store show ?thesis
    by (simp add: persisted_write)
qed

end
